theory Spec2Isabelle
  imports Main
begin

section \<open>Errors and the pieces of the Go standard library the code calls\<close>

text \<open>
  Every way a call can end without a result is a value of \<open>error\<close>: the two not-found
  errors the Docker client library lets its callers recognise, any other error of a
  collaborator, an error built with \<^verbatim>\<open>fmt.Errorf\<close>, the \<^verbatim>\<open>*strconv.NumError\<close> of
  \<^verbatim>\<open>strconv.Atoi\<close> (carrying the rejected input) and a run-time panic (a slice or index
  out of range, a nil dereference).
\<close>

datatype error =
    ErrContainerNotFound
  | ErrImageNotFound
  | ErrRuntime string
  | Errorf string
  | NumError string
  | Panic string

text \<open>\<^verbatim>\<open>client.IsErrImageNotFound\<close> of the Docker client library.\<close>

definition IsErrImageNotFound :: "error \<Rightarrow> bool" where
  "IsErrImageNotFound e = (e = ErrImageNotFound)"

text \<open>Reading a Go \<^verbatim>\<open>map[string]string\<close>: a missing key reads as the empty string.\<close>

definition lookup_str :: "(string \<rightharpoonup> string) \<Rightarrow> string \<Rightarrow> string" where
  "lookup_str m k = (case m k of None \<Rightarrow> [] | Some v \<Rightarrow> v)"

text \<open>
  \<^verbatim>\<open>strconv.Atoi\<close>: an optional sign, then one or more decimal digits and nothing else; the
  value must fit Go's 64-bit \<^verbatim>\<open>int\<close>. Everything else is a \<^verbatim>\<open>*strconv.NumError\<close>.
\<close>

definition is_digit :: "char \<Rightarrow> bool" where
  "is_digit c = (48 \<le> (of_char c :: nat) \<and> (of_char c :: nat) \<le> 57)"

fun digits_value :: "int \<Rightarrow> string \<Rightarrow> int" where
  "digits_value acc [] = acc"
| "digits_value acc (c # cs) = digits_value (acc * 10 + (of_char c - 48)) cs"

definition Atoi :: "string \<Rightarrow> error + int" where
  "Atoi s =
     (case s of
        [] \<Rightarrow> Inl (NumError s)
      | c # cs \<Rightarrow>
          (let neg = (c = CHR ''-'');
               ds = (if c = CHR ''-'' \<or> c = CHR ''+'' then cs else s)
           in if ds = [] \<or> \<not> list_all is_digit ds then Inl (NumError s)
              else (let n = digits_value 0 ds; v = (if neg then - n else n)
                    in if v < - (2 ^ 63) \<or> 2 ^ 63 - 1 < v then Inl (NumError s)
                       else Inr v)))"

text \<open>\<^verbatim>\<open>fmt.Sprint\<close> of an \<^verbatim>\<open>int\<close>: its decimal digits, with a minus sign when negative.\<close>

fun itoa_nat :: "nat \<Rightarrow> string" where
  "itoa_nat n =
     (if n < 10 then [char_of (48 + n)]
      else itoa_nat (n div 10) @ [char_of (48 + n mod 10)])"

declare itoa_nat.simps [simp del]

definition Sprint_int :: "int \<Rightarrow> string" where
  "Sprint_int i = (if i < 0 then CHR ''-'' # itoa_nat (nat (- i)) else itoa_nat (nat i))"

text \<open>
  \<^verbatim>\<open>strings.SplitAfter(s, "/")\<close>: the pieces of \<open>s\<close>, each but the last ending with the
  separator; a string without a separator is one piece.
\<close>

fun SplitAfter_slash :: "string \<Rightarrow> string list" where
  "SplitAfter_slash [] = [[]]"
| "SplitAfter_slash (c # cs) =
     (if c = CHR ''/'' then [c] # SplitAfter_slash cs
      else (case SplitAfter_slash cs of
              [] \<Rightarrow> [[c]]
            | p # ps \<Rightarrow> (c # p) # ps))"

section \<open>The data model\<close>

subsection \<open>What the container runtime reports and accepts\<close>

text \<open>
  The fields of the Docker API types that the code reads or writes. A nil and an empty
  label map read alike and the code replaces a nil one by an empty one before it writes, so
  both are the empty map here. \<^verbatim>\<open>Volumes\<close> is a \<^verbatim>\<open>map[string]struct{}\<close>, a set of
  destination paths.
\<close>

record MountPoint =
  mp_Source :: string
  mp_Destination :: string

record ContainerConfig =
  cc_Image :: string
  cc_Labels :: "string \<rightharpoonup> string"
  cc_Volumes :: "string set"

record HostConfig =
  hc_Binds :: "string list"
  hc_Links :: "string list"
  hc_IpcMode :: string
  hc_NetworkMode :: string

record ContainerJSON =
  cj_ID :: string
  cj_Name :: string
  cj_Image :: string
  cj_Config :: ContainerConfig
  cj_Mounts :: "MountPoint list"

record ContainerSummary =
  cs_Names :: "string list"
  cs_Labels :: "string \<rightharpoonup> string"

record ImageInspect =
  ii_ID :: string

record ConfigWrapper =
  cw_Config :: ContainerConfig
  cw_HostConfig :: HostConfig
  cw_NetworkingConfig :: string

subsection \<open>Services, containers, events\<close>

datatype Label = NUMBER | ONEOFF | PROJECT | SERVICE | HASH | VERSION

datatype RelType = RelTypeLink | RelTypeNetNamespace | RelTypeIpcNamespace

record ServiceRelationship =
  rel_Target :: string
  rel_Alias :: string
  rel_Type :: RelType

record ServiceConfig =
  sc_Command :: "string list"
  sc_Tty :: bool
  sc_StdinOpen :: bool
  sc_Size :: string
  sc_Image :: string
  sc_ContainerName :: string
  sc_ExternalLinks :: "string list"

text \<open>
  \<^verbatim>\<open>Service.serviceConfig\<close> is a pointer: the service holds the address of its
  configuration, and the configuration itself lives in the store of the state below.
\<close>

record Project =
  p_Name :: string
  p_ServiceConfigs :: "string \<rightharpoonup> nat"

record Context =
  ctx_Project :: Project

record Service =
  s_name :: string
  s_serviceConfig :: nat
  s_context :: Context

record Container =
  c_name :: string
  c_serviceName :: string
  c_projectName :: string
  c_containerNumber :: int
  c_oneOff :: bool
  c_service :: Service

datatype EventType = ContainerCreated | ContainerStarted

record Event =
  ev_EventType :: EventType
  ev_ServiceName :: string
  ev_Data :: "(string \<times> string) list"

subsection \<open>Collaborators\<close>

text \<open>
  The container runtime is reached through an interface; the code is written against any
  implementation of it. An implementation is a record of operations on a runtime of type
  \<open>'w\<close>, each returning its answer and the runtime after the call. \<^verbatim>\<open>GetContainer\<close> and
  \<^verbatim>\<open>GetContainersByFilter\<close> are the package's own wrappers around the client (a container
  that is not there is \<open>Inr None\<close>, not an error); a label filter is the list of the
  label equalities asked for.
\<close>

record 'w runtime =
  GetContainer :: "string \<Rightarrow> 'w \<Rightarrow> (error + ContainerJSON option) \<times> 'w"
  GetContainersByFilter :: "(Label \<times> string) list \<Rightarrow> 'w \<Rightarrow> (error + ContainerSummary list) \<times> 'w"
  ContainerInspect :: "string \<Rightarrow> 'w \<Rightarrow> (error + ContainerJSON) \<times> 'w"
  ContainerRename :: "string \<Rightarrow> string \<Rightarrow> 'w \<Rightarrow> error option \<times> 'w"
  ContainerCreate :: "ContainerConfig \<Rightarrow> HostConfig \<Rightarrow> string \<Rightarrow> string \<Rightarrow> 'w \<Rightarrow> (error + string) \<times> 'w"
  ContainerRemove :: "string \<Rightarrow> bool \<Rightarrow> bool \<Rightarrow> 'w \<Rightarrow> error option \<times> 'w"
  ImageInspectWithRaw :: "string \<Rightarrow> 'w \<Rightarrow> (error + ImageInspect) \<times> 'w"

text \<open>
  The functions and constants of other packages that the code uses and that compute
  without the runtime: the label keys (\<^verbatim>\<open>labels.X.Str()\<close>), the version string, the
  configuration hash, the conversion of a service into the API's configuration, the union
  of two string slices (\<^verbatim>\<open>utils.Merge\<close>), the relationships a service declares and the
  project's service factory. \<^verbatim>\<open>ConvertToAPI\<close> and \<^verbatim>\<open>DependentServices\<close> read the service
  through its pointer, so they are given the configuration found there at the time of the
  call.
\<close>

record env =
  Str :: "Label \<Rightarrow> string"
  ComposeVersion :: string
  GetServiceHash :: "string \<Rightarrow> ServiceConfig \<Rightarrow> string"
  ConvertToAPI :: "Service \<Rightarrow> ServiceConfig \<Rightarrow> error + ConfigWrapper"
  Merge :: "string list \<Rightarrow> string list \<Rightarrow> string list"
  DependentServices :: "Service \<Rightarrow> ServiceConfig \<Rightarrow> ServiceRelationship list"
  CreateService :: "string \<Rightarrow> error + Service"

subsection \<open>The state the code runs in\<close>

text \<open>
  The runtime, the events handed to the notifier so far (oldest first) and the store of
  service configurations, by address.
\<close>

record 'w state =
  world :: 'w
  events :: "Event list"
  store :: "nat \<Rightarrow> ServiceConfig"

definition call :: "('w \<Rightarrow> 'a \<times> 'w) \<Rightarrow> 'w state \<Rightarrow> 'a \<times> 'w state" where
  "call f s = (case f (world s) of (r, w) \<Rightarrow> (r, s\<lparr>world := w\<rparr>))"

definition Notify :: "EventType \<Rightarrow> string \<Rightarrow> (string \<times> string) list \<Rightarrow> 'w state \<Rightarrow> 'w state" where
  "Notify t sn d s = s\<lparr>events := events s @ [\<lparr>ev_EventType = t, ev_ServiceName = sn, ev_Data = d\<rparr>]\<rparr>"

section \<open>The container (docker/container.go) and its service\<close>

definition NewContainer :: "string \<Rightarrow> int \<Rightarrow> Service \<Rightarrow> Container" where
  "NewContainer name containerNumber service =
     \<lparr>c_name = name,
      c_serviceName = s_name service,
      c_projectName = p_Name (ctx_Project (s_context service)),
      c_containerNumber = containerNumber,
      c_oneOff = False,
      c_service = service\<rparr>"

definition NewOneOffContainer :: "string \<Rightarrow> int \<Rightarrow> Service \<Rightarrow> Container" where
  "NewOneOffContainer name containerNumber service =
     (NewContainer name containerNumber service)\<lparr>c_oneOff := True\<rparr>"

definition Name :: "Container \<Rightarrow> string" where
  "Name c = c_name c"

definition Config :: "Service \<Rightarrow> 'w state \<Rightarrow> ServiceConfig" where
  "Config service s = store s (s_serviceConfig service)"

text \<open>\<^verbatim>\<open>ServiceConfigs.Has\<close>: the project has a configuration under this name.\<close>

definition Has :: "Project \<Rightarrow> string \<Rightarrow> bool" where
  "Has p name = (p_ServiceConfigs p name \<noteq> None)"

definition findExisting ::
  "'w runtime \<Rightarrow> Container \<Rightarrow> 'w state \<Rightarrow> (error + ContainerJSON option) \<times> 'w state" where
  "findExisting rt c s = call (GetContainer rt (c_name c)) s"

definition getHash :: "env \<Rightarrow> Container \<Rightarrow> 'w state \<Rightarrow> string" where
  "getHash E c s = GetServiceHash E (c_serviceName c) (Config (c_service c) s)"

definition volumeBinds :: "string set \<Rightarrow> ContainerJSON \<Rightarrow> string list" where
  "volumeBinds volumes container =
     [mp_Source mount @ '':'' @ mp_Destination mount.
        mount \<leftarrow> cj_Mounts container, mp_Destination mount \<in> volumes]"

subsection \<open>Enumerating a service's containers (Service.collectContainers)\<close>

text \<open>
  The loop over the containers the label query returned. \<^verbatim>\<open>container.Names[0]\<close> and
  \<^verbatim>\<open>name[1]\<close> panic when the index is out of range.
\<close>

fun collect_loop ::
  "env \<Rightarrow> Service \<Rightarrow> ContainerSummary list \<Rightarrow> Container list \<Rightarrow> error + Container list" where
  "collect_loop E service [] result = Inr result"
| "collect_loop E service (container # rest) result =
     (case Atoi (lookup_str (cs_Labels container) (Str E NUMBER)) of
        Inl err \<Rightarrow> Inl err
      | Inr containerNumber \<Rightarrow>
          (case cs_Names container of
             [] \<Rightarrow> Inl (Panic ''index out of range'')
           | n0 # _ \<Rightarrow>
               (case SplitAfter_slash n0 of
                  _ # n1 # _ \<Rightarrow>
                    collect_loop E service rest (result @ [NewContainer n1 containerNumber service])
                | _ \<Rightarrow> Inl (Panic ''index out of range''))))"

definition collectContainers ::
  "env \<Rightarrow> 'w runtime \<Rightarrow> Service \<Rightarrow> 'w state \<Rightarrow> (error + Container list) \<times> 'w state" where
  "collectContainers E rt service s =
     (case call (GetContainersByFilter rt
                   [(SERVICE, s_name service), (PROJECT, p_Name (ctx_Project (s_context service)))]) s of
        (Inl err, s1) \<Rightarrow> (Inl err, s1)
      | (Inr containers, s1) \<Rightarrow> (collect_loop E service containers [], s1))"

definition Containers ::
  "env \<Rightarrow> 'w runtime \<Rightarrow> Service \<Rightarrow> 'w state \<Rightarrow> (error + Container list) \<times> 'w state" where
  "Containers E rt service s =
     (case collectContainers E rt service s of
        (Inl err, s1) \<Rightarrow> (Inl err, s1)
      | (Inr containers, s1) \<Rightarrow> (Inr containers, s1))"

subsection \<open>Deriving the host configuration\<close>

text \<open>
  The \<^verbatim>\<open>links\<close> map of \<^verbatim>\<open>populateAdditionalHostConfig\<close> is kept as a list of
  (key, value) pairs with one pair a key, in the order the keys were first written; Go
  leaves the order in which the map is read back unspecified.
\<close>

fun links_has :: "(string \<times> string) list \<Rightarrow> string \<Rightarrow> bool" where
  "links_has [] k = False"
| "links_has ((k', v') # kvs) k = (k = k' \<or> links_has kvs k)"

fun links_put :: "(string \<times> string) list \<Rightarrow> string \<Rightarrow> string \<Rightarrow> (string \<times> string) list" where
  "links_put [] k v = [(k, v)]"
| "links_put ((k', v') # kvs) k v =
     (if k = k' then (k, v) # kvs else (k', v') # links_put kvs k v)"

fun addLinks ::
  "(string \<times> string) list \<Rightarrow> ServiceRelationship \<Rightarrow> Container list \<Rightarrow> (string \<times> string) list" where
  "addLinks links rel [] = links"
| "addLinks links rel (container # containers) =
     (let links1 = (if \<not> links_has links (rel_Alias rel)
                    then links_put links (rel_Alias rel) (Name container) else links);
          links2 = links_put links1 (Name container) (Name container)
      in addLinks links2 rel containers)"

text \<open>The bodies of \<^verbatim>\<open>addIpc\<close> and \<^verbatim>\<open>addNetNs\<close> are commented out: both return the
  configuration they were given and a nil error.\<close>

definition addIpc :: "HostConfig \<Rightarrow> Service \<Rightarrow> Container list \<Rightarrow> error + HostConfig" where
  "addIpc config service containers = Inr config"

definition addNetNs :: "HostConfig \<Rightarrow> Service \<Rightarrow> Container list \<Rightarrow> error + HostConfig" where
  "addNetNs config service containers = Inr config"

text \<open>The loop over the service's relationships; \<open>links\<close> and \<open>hostConfig\<close> are the
  loop's variables.\<close>

fun populate_loop ::
  "env \<Rightarrow> 'w runtime \<Rightarrow> Container \<Rightarrow> ServiceRelationship list \<Rightarrow> (string \<times> string) list \<Rightarrow>
   HostConfig \<Rightarrow> 'w state \<Rightarrow> (error + (string \<times> string) list \<times> HostConfig) \<times> 'w state" where
  "populate_loop E rt c [] links hostConfig s = (Inr (links, hostConfig), s)"
| "populate_loop E rt c (link # rest) links hostConfig s =
     (if \<not> Has (ctx_Project (s_context (c_service c))) (rel_Target link)
      then populate_loop E rt c rest links hostConfig s
      else
        (case CreateService E (rel_Target link) of
           Inl err \<Rightarrow> (Inl err, s)
         | Inr service \<Rightarrow>
             (case Containers E rt service s of
                (Inl err, s1) \<Rightarrow> (Inl err, s1)
              | (Inr containers, s1) \<Rightarrow>
                  (if rel_Type link = RelTypeLink
                   then populate_loop E rt c rest (addLinks links link containers) hostConfig s1
                   else if rel_Type link = RelTypeIpcNamespace
                   then (case addIpc hostConfig service containers of
                           Inl err \<Rightarrow> (Inl err, s1)
                         | Inr hostConfig1 \<Rightarrow> populate_loop E rt c rest links hostConfig1 s1)
                   else if rel_Type link = RelTypeNetNamespace
                   then (case addNetNs hostConfig service containers of
                           Inl err \<Rightarrow> (Inl err, s1)
                         | Inr hostConfig1 \<Rightarrow> populate_loop E rt c rest links hostConfig1 s1)
                   else populate_loop E rt c rest links hostConfig s1))))"

definition populateAdditionalHostConfig ::
  "env \<Rightarrow> 'w runtime \<Rightarrow> Container \<Rightarrow> HostConfig \<Rightarrow> 'w state \<Rightarrow> (error + HostConfig) \<times> 'w state" where
  "populateAdditionalHostConfig E rt c hostConfig s =
     (case populate_loop E rt c
             (DependentServices E (c_service c) (Config (c_service c) s)) [] hostConfig s of
        (Inl err, s1) \<Rightarrow> (Inl err, s1)
      | (Inr (links, hostConfig1), s1) \<Rightarrow>
          (Inr (hostConfig1\<lparr>hc_Links :=
                   map (\<lambda>(k, v). v @ '':'' @ k) links @ sc_ExternalLinks (Config (c_service c) s1)\<rparr>),
           s1))"

subsection \<open>Creating a container\<close>

text \<open>
  \<^verbatim>\<open>serviceConfig := c.service.serviceConfig\<close> copies the pointer, so the three assignments
  of an override write into the service's own configuration, and \<^verbatim>\<open>ConvertToAPI\<close> and
  \<^verbatim>\<open>getHash\<close>, which read the service, see them. The result is what \<^verbatim>\<open>GetContainer\<close>
  answers for the new ID, \<open>None\<close> when it finds nothing. The body of
  \<^verbatim>\<open>createContainer\<close> is cut into its stages: the override (lines 496 to 501), the labels
  (lines 509 to 528) and the binds taken over from the old container (lines 535 to 541).
\<close>

definition apply_override :: "Container \<Rightarrow> ServiceConfig option \<Rightarrow> 'w state \<Rightarrow> 'w state" where
  "apply_override c configOverride s =
     (case configOverride of
        None \<Rightarrow> s
      | Some ov \<Rightarrow>
          s\<lparr>store := (store s)(s_serviceConfig (c_service c) :=
               (store s (s_serviceConfig (c_service c)))
                 \<lparr>sc_Command := sc_Command ov, sc_Tty := sc_Tty ov, sc_StdinOpen := sc_StdinOpen ov\<rparr>)\<rparr>)"

definition container_labels :: "env \<Rightarrow> Container \<Rightarrow> 'w state \<Rightarrow> (string \<rightharpoonup> string) \<Rightarrow> (string \<rightharpoonup> string)" where
  "container_labels E c s labels =
     (let oneOffString = (if c_oneOff c then ''True'' else ''False'');
          labels1 = labels(Str E SERVICE \<mapsto> c_serviceName c);
          labels2 = labels1(Str E PROJECT \<mapsto> c_projectName c);
          labels3 = labels2(Str E HASH \<mapsto> getHash E c s);
          labels4 = labels3(Str E ONEOFF \<mapsto> oneOffString);
          labels5 = labels4(Str E NUMBER \<mapsto> Sprint_int (c_containerNumber c));
          labels6 = labels5(Str E VERSION \<mapsto> ComposeVersion E);
          sz = (if sc_Size (Config (c_service c) s) \<noteq> [] then sc_Size (Config (c_service c) s)
                  else ''s4'')
      in labels6(''sh_hyper_instancetype'' \<mapsto> sz))"

definition inherit_binds ::
  "env \<Rightarrow> 'w runtime \<Rightarrow> string \<Rightarrow> ContainerConfig \<Rightarrow> HostConfig \<Rightarrow> 'w state \<Rightarrow>
   (error + HostConfig) \<times> 'w state" where
  "inherit_binds E rt oldContainer config hostConfig s =
     (if oldContainer \<noteq> []
      then (case call (ContainerInspect rt oldContainer) s of
              (Inl err, s1) \<Rightarrow> (Inl err, s1)
            | (Inr info, s1) \<Rightarrow>
                (Inr (hostConfig\<lparr>hc_Binds :=
                        Merge E (hc_Binds hostConfig) (volumeBinds (cc_Volumes config) info)\<rparr>), s1))
      else (Inr hostConfig, s))"

definition createContainer ::
  "env \<Rightarrow> 'w runtime \<Rightarrow> Container \<Rightarrow> string \<Rightarrow> string \<Rightarrow> ServiceConfig option \<Rightarrow> 'w state \<Rightarrow>
   (error + ContainerJSON option) \<times> 'w state" where
  "createContainer E rt c imageName oldContainer configOverride s =
     (let s1 = apply_override c configOverride s in
      case ConvertToAPI E (c_service c) (Config (c_service c) s1) of
        Inl err \<Rightarrow> (Inl err, s1)
      | Inr configWrapper \<Rightarrow>
          (let config = (cw_Config configWrapper)
                 \<lparr>cc_Image := imageName,
                  cc_Labels := container_labels E c s1 (cc_Labels (cw_Config configWrapper))\<rparr>
           in case populateAdditionalHostConfig E rt c (cw_HostConfig configWrapper) s1 of
                (Inl err, s2) \<Rightarrow> (Inl err, s2)
              | (Inr hostConfig, s2) \<Rightarrow>
                  (case inherit_binds E rt oldContainer config hostConfig s2 of
                     (Inl err, s3) \<Rightarrow> (Inl err, s3)
                   | (Inr hostConfig1, s3) \<Rightarrow>
                       (case call (ContainerCreate rt config hostConfig1
                                     (cw_NetworkingConfig configWrapper) (c_name c)) s3 of
                          (Inl err, s4) \<Rightarrow> (Inl err, s4)
                        | (Inr newID, s4) \<Rightarrow> call (GetContainer rt newID) s4))))"

subsection \<open>Create, Recreate, OutOfSync\<close>

definition CreateWithOverride ::
  "env \<Rightarrow> 'w runtime \<Rightarrow> Container \<Rightarrow> string \<Rightarrow> ServiceConfig option \<Rightarrow> 'w state \<Rightarrow>
   (error + ContainerJSON option) \<times> 'w state" where
  "CreateWithOverride E rt c imageName configOverride s =
     (case findExisting rt c s of
        (Inl err, s1) \<Rightarrow> (Inl err, s1)
      | (Inr (Some container), s1) \<Rightarrow> (Inr (Some container), s1)
      | (Inr None, s1) \<Rightarrow>
          (case createContainer E rt c imageName [] configOverride s1 of
             (Inl err, s2) \<Rightarrow> (Inl err, s2)
           | (Inr container, s2) \<Rightarrow>
               (Inr container,
                Notify ContainerCreated (c_serviceName c) [(''name'', Name c)] s2)))"

definition Create ::
  "env \<Rightarrow> 'w runtime \<Rightarrow> Container \<Rightarrow> string \<Rightarrow> 'w state \<Rightarrow>
   (error + ContainerJSON option) \<times> 'w state" where
  "Create E rt c imageName s = CreateWithOverride E rt c imageName None s"

text \<open>
  \<^verbatim>\<open>container.Name[1:]\<close> panics on the empty name and \<^verbatim>\<open>container.ID[:12]\<close> on an ID
  shorter than twelve bytes; \<^verbatim>\<open>newContainer.ID\<close>, read for the log line, on a nil
  \<^verbatim>\<open>newContainer\<close>. A container that is not there gives the result nil with a nil error.
\<close>

definition Recreate ::
  "env \<Rightarrow> 'w runtime \<Rightarrow> Container \<Rightarrow> string \<Rightarrow> 'w state \<Rightarrow>
   (error + ContainerJSON option) \<times> 'w state" where
  "Recreate E rt c imageName s =
     (case findExisting rt c s of
        (Inl err, s1) \<Rightarrow> (Inl err, s1)
      | (Inr None, s1) \<Rightarrow> (Inr None, s1)
      | (Inr (Some container), s1) \<Rightarrow>
          (if lookup_str (cc_Labels (cj_Config container)) (Str E HASH) = []
           then (Inl (Errorf (''Failed to find hash on old container: '' @ cj_Name container)), s1)
           else if cj_Name container = [] then (Inl (Panic ''slice bounds out of range''), s1)
           else if length (cj_ID container) < 12 then (Inl (Panic ''slice bounds out of range''), s1)
           else
             (let name = tl (cj_Name container);
                  newName = name @ ''-'' @ take 12 (cj_ID container)
              in case call (ContainerRename rt (cj_ID container) newName) s1 of
                   (Some err, s2) \<Rightarrow> (Inl err, s2)
                 | (None, s2) \<Rightarrow>
                     (case createContainer E rt c imageName (cj_ID container) None s2 of
                        (Inl err, s3) \<Rightarrow> (Inl err, s3)
                      | (Inr None, s3) \<Rightarrow> (Inl (Panic ''nil pointer dereference''), s3)
                      | (Inr (Some newContainer), s3) \<Rightarrow>
                          (case call (ContainerRemove rt (cj_ID container) True False) s3 of
                             (Some err, s4) \<Rightarrow> (Inl err, s4)
                           | (None, s4) \<Rightarrow> (Inr (Some newContainer), s4))))))"

text \<open>\<^verbatim>\<open>OutOfSync\<close> returns \<^verbatim>\<open>(false, err)\<close> on an error: the error alone is kept.\<close>

definition OutOfSync ::
  "env \<Rightarrow> 'w runtime \<Rightarrow> Container \<Rightarrow> string \<Rightarrow> 'w state \<Rightarrow> (error + bool) \<times> 'w state" where
  "OutOfSync E rt c imageName s =
     (case findExisting rt c s of
        (Inl err, s1) \<Rightarrow> (Inl err, s1)
      | (Inr None, s1) \<Rightarrow> (Inr False, s1)
      | (Inr (Some container), s1) \<Rightarrow>
          (if cc_Image (cj_Config container) \<noteq> imageName then (Inr True, s1)
           else if lookup_str (cc_Labels (cj_Config container)) (Str E HASH) \<noteq> getHash E c s1
           then (Inr True, s1)
           else
             (case call (ImageInspectWithRaw rt (cc_Image (cj_Config container))) s1 of
                (Inl err, s2) \<Rightarrow>
                  (if IsErrImageNotFound err then (Inr False, s2) else (Inl err, s2))
              | (Inr img, s2) \<Rightarrow> (Inr (ii_ID img \<noteq> cj_Image container), s2))))"

section \<open>Observing what is sent to the runtime\<close>

text \<open>
  To state in which order the code talks to the runtime, a runtime is wrapped into one
  that answers as before and keeps a log of every call with its answer, oldest first. The
  code under study is not changed by this: it runs against the wrapped runtime as against
  any other.
\<close>

datatype Exchange =
    XGetContainer string "error + ContainerJSON option"
  | XGetContainersByFilter "(Label \<times> string) list" "error + ContainerSummary list"
  | XContainerInspect string "error + ContainerJSON"
  | XContainerRename string string "error option"
  | XContainerCreate ContainerConfig HostConfig string string "error + string"
  | XContainerRemove string bool bool "error option"
  | XImageInspectWithRaw string "error + ImageInspect"

definition logged :: "('w \<Rightarrow> 'a \<times> 'w) \<Rightarrow> ('a \<Rightarrow> Exchange) \<Rightarrow> 'w \<times> Exchange list \<Rightarrow> 'a \<times> 'w \<times> Exchange list" where
  "logged f x wl = (case f (fst wl) of (r, w) \<Rightarrow> (r, (w, snd wl @ [x r])))"

definition recording :: "'w runtime \<Rightarrow> ('w \<times> Exchange list) runtime" where
  "recording rt =
     \<lparr>GetContainer = (\<lambda>n. logged (GetContainer rt n) (XGetContainer n)),
      GetContainersByFilter = (\<lambda>f. logged (GetContainersByFilter rt f) (XGetContainersByFilter f)),
      ContainerInspect = (\<lambda>n. logged (ContainerInspect rt n) (XContainerInspect n)),
      ContainerRename = (\<lambda>i n. logged (ContainerRename rt i n) (XContainerRename i n)),
      ContainerCreate = (\<lambda>c h nw n. logged (ContainerCreate rt c h nw n) (XContainerCreate c h nw n)),
      ContainerRemove = (\<lambda>i f v. logged (ContainerRemove rt i f v) (XContainerRemove i f v)),
      ImageInspectWithRaw = (\<lambda>n. logged (ImageInspectWithRaw rt n) (XImageInspectWithRaw n))\<rparr>"

definition exchanges :: "('w \<times> Exchange list) state \<Rightarrow> Exchange list" where
  "exchanges s = snd (world s)"

fun is_query :: "Exchange \<Rightarrow> bool" where
  "is_query (XGetContainersByFilter f r) = True"
| "is_query x = False"

fun is_create :: "Exchange \<Rightarrow> bool" where
  "is_create (XContainerCreate c h nw n r) = True"
| "is_create x = False"

fun is_rename :: "Exchange \<Rightarrow> bool" where
  "is_rename (XContainerRename i n r) = True"
| "is_rename x = False"

fun is_remove :: "Exchange \<Rightarrow> bool" where
  "is_remove (XContainerRemove i f v r) = True"
| "is_remove x = False"

section \<open>A runtime in memory\<close>

text \<open>
  A small runtime used to run the code on concrete inputs: the containers it holds, the
  images it knows (reference and content ID) and a counter for fresh IDs. A container is
  found by its ID or by its name without the leading slash; creating one needs a free
  name and a known image.
\<close>

record mem =
  mem_containers :: "ContainerJSON list"
  mem_images :: "(string \<times> string) list"
  mem_next :: nat

definition mem_find :: "string \<Rightarrow> mem \<Rightarrow> ContainerJSON option" where
  "mem_find n w = find (\<lambda>k. cj_ID k = n \<or> cj_Name k = CHR ''/'' # n) (mem_containers w)"

definition mem_matches :: "(Label \<Rightarrow> string) \<Rightarrow> (Label \<times> string) list \<Rightarrow> ContainerJSON \<Rightarrow> bool" where
  "mem_matches str f k = list_all (\<lambda>(l, v). cc_Labels (cj_Config k) (str l) = Some v) f"

definition mem_runtime :: "(Label \<Rightarrow> string) \<Rightarrow> mem runtime" where
  "mem_runtime str =
     \<lparr>GetContainer = (\<lambda>n w. (Inr (mem_find n w), w)),
      GetContainersByFilter = (\<lambda>f w.
        (Inr (map (\<lambda>k. \<lparr>cs_Names = [cj_Name k], cs_Labels = cc_Labels (cj_Config k)\<rparr>)
                (filter (mem_matches str f) (mem_containers w))), w)),
      ContainerInspect = (\<lambda>n w.
        (case mem_find n w of None \<Rightarrow> Inl ErrContainerNotFound | Some k \<Rightarrow> Inr k, w)),
      ContainerRename = (\<lambda>i n w.
        if list_ex (\<lambda>k. cj_ID k = i) (mem_containers w)
        then (None, w\<lparr>mem_containers :=
                map (\<lambda>k. if cj_ID k = i then k\<lparr>cj_Name := CHR ''/'' # n\<rparr> else k) (mem_containers w)\<rparr>)
        else (Some ErrContainerNotFound, w)),
      ContainerCreate = (\<lambda>c h nw n w.
        if mem_find n w \<noteq> None then (Inl (ErrRuntime ''name already in use''), w)
        else (case map_of (mem_images w) (cc_Image c) of
                None \<Rightarrow> (Inl ErrImageNotFound, w)
              | Some iid \<Rightarrow>
                  (Inr (''container-id-'' @ replicate (mem_next w) (CHR ''0'')),
                   w\<lparr>mem_containers := mem_containers w @
                        [\<lparr>cj_ID = ''container-id-'' @ replicate (mem_next w) (CHR ''0''), cj_Name = CHR ''/'' # n,
                          cj_Image = iid, cj_Config = c, cj_Mounts = []\<rparr>],
                     mem_next := Suc (mem_next w)\<rparr>))),
      ContainerRemove = (\<lambda>i f v w.
        if list_ex (\<lambda>k. cj_ID k = i) (mem_containers w)
        then (None, w\<lparr>mem_containers := filter (\<lambda>k. cj_ID k \<noteq> i) (mem_containers w)\<rparr>)
        else (Some ErrContainerNotFound, w)),
      ImageInspectWithRaw = (\<lambda>n w.
        (case map_of (mem_images w) n of
           None \<Rightarrow> Inl ErrImageNotFound
         | Some iid \<Rightarrow> Inr \<lparr>ii_ID = iid\<rparr>, w))\<rparr>"

text \<open>
  \<open>steps s s' xs\<close>: between the states \<open>s\<close> and \<open>s'\<close> no event was emitted and the
  calls \<open>xs\<close>, in this order and no other, reached the runtime.
\<close>

definition steps ::
  "('w \<times> Exchange list) state \<Rightarrow> ('w \<times> Exchange list) state \<Rightarrow> Exchange list \<Rightarrow> bool" where
  "steps s s' xs = (events s' = events s \<and> exchanges s' = exchanges s @ xs)"

section \<open>Concrete inputs\<close>

text \<open>
  A project \<open>proj\<close> with the service \<open>web\<close>, whose configuration is at address 0, and the
  container \<open>proj_web_1\<close>; the collaborators are small but total functions. The converted
  configuration declares the volume \<open>/data\<close>.
\<close>

fun str0 :: "Label \<Rightarrow> string" where
  "str0 NUMBER = ''number''"
| "str0 ONEOFF = ''oneoff''"
| "str0 PROJECT = ''project''"
| "str0 SERVICE = ''service''"
| "str0 HASH = ''config-hash''"
| "str0 VERSION = ''version''"

definition cfg0 :: ServiceConfig where
  "cfg0 = \<lparr>sc_Command = [''a''], sc_Tty = False, sc_StdinOpen = False, sc_Size = [],
            sc_Image = ''x'', sc_ContainerName = [], sc_ExternalLinks = []\<rparr>"

definition project0 :: Project where
  "project0 = \<lparr>p_Name = ''proj'', p_ServiceConfigs = [''web'' \<mapsto> 0, ''db'' \<mapsto> 1]\<rparr>"

definition svc0 :: Service where
  "svc0 = \<lparr>s_name = ''web'', s_serviceConfig = 0, s_context = \<lparr>ctx_Project = project0\<rparr>\<rparr>"

definition svc1 :: Service where
  "svc1 = \<lparr>s_name = ''db'', s_serviceConfig = 1, s_context = \<lparr>ctx_Project = project0\<rparr>\<rparr>"

definition c0 :: Container where
  "c0 = NewContainer ''proj_web_1'' 1 svc0"

definition hc0 :: HostConfig where
  "hc0 = \<lparr>hc_Binds = [], hc_Links = [], hc_IpcMode = [], hc_NetworkMode = []\<rparr>"

definition E0 :: env where
  "E0 = \<lparr>Str = str0,
          ComposeVersion = ''1.5.0'',
          GetServiceHash = (\<lambda>n k. n @ concat (sc_Command k)),
          ConvertToAPI = (\<lambda>sv k.
            Inr \<lparr>cw_Config = \<lparr>cc_Image = sc_Image k, cc_Labels = Map.empty, cc_Volumes = {''/data''}\<rparr>,
                 cw_HostConfig = hc0, cw_NetworkingConfig = []\<rparr>),
          Merge = (\<lambda>a b. remdups (a @ b)),
          DependentServices = (\<lambda>sv k. []),
          CreateService = (\<lambda>n. if n = ''db'' then Inr svc1 else Inl (Errorf ''no such service''))\<rparr>"

text \<open>The same collaborators for a service that shares the IPC namespace of \<open>db\<close>.\<close>

definition E_ipc :: env where
  "E_ipc = E0\<lparr>DependentServices :=
     (\<lambda>sv k. [\<lparr>rel_Target = ''db'', rel_Alias = [], rel_Type = RelTypeIpcNamespace\<rparr>])\<rparr>"

definition R0 :: "(mem \<times> Exchange list) runtime" where
  "R0 = recording (mem_runtime str0)"

definition old0 :: ContainerJSON where
  "old0 = \<lparr>cj_ID = ''0123456789abcdef'', cj_Name = ''/proj_web_1'', cj_Image = ''sha-x'',
            cj_Config = \<lparr>cc_Image = ''x'',
                         cc_Labels = [''config-hash'' \<mapsto> ''weba'', ''number'' \<mapsto> ''1'',
                                      ''service'' \<mapsto> ''web'', ''project'' \<mapsto> ''proj''],
                         cc_Volumes = {''/data''}\<rparr>,
            cj_Mounts = [\<lparr>mp_Source = ''/host/data'', mp_Destination = ''/data''\<rparr>]\<rparr>"

text \<open>The same container without a configuration hash among its labels.\<close>

definition old_nohash :: ContainerJSON where
  "old_nohash = old0\<lparr>cj_Config := (cj_Config old0)\<lparr>cc_Labels := [''number'' \<mapsto> ''1'']\<rparr>\<rparr>"

definition images0 :: "(string \<times> string) list" where
  "images0 = [(''x'', ''sha-x'')]"

definition state_of :: "ContainerJSON list \<Rightarrow> (string \<times> string) list \<Rightarrow> (mem \<times> Exchange list) state" where
  "state_of ks imgs =
     \<lparr>world = (\<lparr>mem_containers = ks, mem_images = imgs, mem_next = 0\<rparr>, []),
      events = [], store = (\<lambda>a. cfg0)\<rparr>"

section \<open>Resolving \<open>extends\<close> (config/merge_v1.go)\<close>

subsection \<open>Raw services\<close>

text \<open>
  A raw service is a Go map from field names to untyped values, and a Go map is a
  reference: two variables can hold the same map, and a write through one is seen through
  the other. So a raw service is an address into a heap of maps; \<open>next_ref\<close> is the first
  address not yet handed out. The values are immutable trees.
\<close>

datatype val =
    VString string
  | VList "val list"
  | VMap "(val \<times> val) list"
  | VOther string

record heap =
  cells :: "nat \<Rightarrow> (string \<rightharpoonup> val)"
  next_ref :: nat

definition alloc :: "(string \<rightharpoonup> val) \<Rightarrow> heap \<Rightarrow> nat \<times> heap" where
  "alloc m h = (next_ref h, h\<lparr>cells := (cells h)(next_ref h := m), next_ref := Suc (next_ref h)\<rparr>)"

text \<open>\<^verbatim>\<open>ResourceLookup.Lookup(file, relativeTo)\<close> answers the bytes of the file and its
  resolved name, or an error.\<close>

type_synonym ResourceLookup = "string \<Rightarrow> string \<Rightarrow> error + string \<times> string"

text \<open>
  What \<^verbatim>\<open>parseV1\<close> uses of its package and of the YAML library without its source being
  at hand: reading the environment files of a service, the string behind an untyped
  value (a missing map entry is \<open>None\<close>), the list of fields that forbid extension, and
  the loading of another file (parsing, interpolation, validation). The environment lookup
  is only handed on, so its type \<open>'e\<close> is left open.
\<close>

record 'e cenv =
  readEnvFile :: "ResourceLookup option \<Rightarrow> string \<Rightarrow> nat \<Rightarrow> heap \<Rightarrow> (error + nat) \<times> heap"
  asString :: "val option \<Rightarrow> string"
  noMerge :: "string list"
  Unmarshal :: "string \<Rightarrow> heap \<Rightarrow> (error + (string \<rightharpoonup> nat)) \<times> heap"
  Interpolate :: "'e \<Rightarrow> (string \<rightharpoonup> nat) \<Rightarrow> heap \<Rightarrow> (error + (string \<rightharpoonup> nat)) \<times> heap"
  validate :: "(string \<rightharpoonup> nat) \<Rightarrow> heap \<Rightarrow> error option"

subsection \<open>Cloning and merging\<close>

text \<open>
  Modelled from the spec: the function \<^verbatim>\<open>clone\<close> of the package, whose source is missing.
  "Clone the resolved base so mutation of the merge result never mutates cached base
  state": the clone is a new map with the entries of the given one. A nil map (\<open>None\<close>) has
  no entries.
\<close>

definition clone :: "nat option \<Rightarrow> heap \<Rightarrow> nat \<times> heap" where
  "clone r h = alloc (case r of None \<Rightarrow> Map.empty | Some a \<Rightarrow> cells h a) h"

text \<open>
  Modelled from the spec: the function \<^verbatim>\<open>mergeConfig\<close> of the package, whose source is
  missing. "Base fields are defaults; current service's own fields override same-named
  base fields; list-valued fields are overridden wholesale by the more specific layer".
  The result is the base map itself, written in place, which is why the spec has the
  base cloned first.
\<close>

definition mergeConfig :: "nat \<Rightarrow> nat \<Rightarrow> heap \<Rightarrow> nat \<times> heap" where
  "mergeConfig baseService serviceData h =
     (baseService, h\<lparr>cells := (cells h)(baseService := cells h baseService ++ cells h serviceData)\<rparr>)"

subsection \<open>parseV1\<close>

text \<open>Lines 131 to 149: clone the base, refuse a base with a field of \<^verbatim>\<open>noMerge\<close>, merge.\<close>

definition extend_base ::
  "'e cenv \<Rightarrow> string \<Rightarrow> string \<Rightarrow> string \<Rightarrow> nat option \<Rightarrow> nat \<Rightarrow> heap \<Rightarrow> (error + nat) \<times> heap" where
  "extend_base C file inFile service baseService serviceData h =
     (case clone baseService h of
        (baseService1, h1) \<Rightarrow>
          (case find (\<lambda>k. cells h1 baseService1 k \<noteq> None) (noMerge C) of
             Some k \<Rightarrow>
               (Inl (Errorf (''Cannot extend service '' @ [CHR 0x27] @ service @ [CHR 0x27] @ '' in '' @
                             (if file = [] then inFile else file) @ '': services with '' @
                             [CHR 0x27] @ k @ [CHR 0x27] @ '' cannot be extended'')), h1)
           | None \<Rightarrow>
               (case mergeConfig baseService1 serviceData h1 of
                  (baseService2, h2) \<Rightarrow> (Inr baseService2, h2))))"

text \<open>
  \<^verbatim>\<open>parseV1\<close> calls itself on the base service, and nothing bounds the depth (two services
  may extend each other), so the model takes fuel: \<open>None\<close> is the run that did not end
  within it. In the branch of a reference into another file, \<^verbatim>\<open>:=\<close> declares a new
  \<^verbatim>\<open>err\<close> for that block; the recursive call assigns the block's \<^verbatim>\<open>err\<close>, and the test
  after the block reads the outer one, which is nil: when that recursive call fails, the
  code goes on with a nil base.
\<close>

fun parseV1 ::
  "nat \<Rightarrow> 'e cenv \<Rightarrow> ResourceLookup option \<Rightarrow> 'e \<Rightarrow> string \<Rightarrow> nat \<Rightarrow> (string \<rightharpoonup> nat) \<Rightarrow> heap \<Rightarrow>
   ((error + nat) \<times> heap) option" where
  "parseV1 0 C resourceLookup environmentLookup inFile serviceData datas h = None"
| "parseV1 (Suc n) C resourceLookup environmentLookup inFile serviceData datas h =
     (case readEnvFile C resourceLookup inFile serviceData h of
        (Inl err, h1) \<Rightarrow> Some (Inl err, h1)
      | (Inr serviceData1, h1) \<Rightarrow>
          (case cells h1 serviceData1 ''extends'' of
             None \<Rightarrow> Some (Inr serviceData1, h1)
           | Some (VMap mapValue) \<Rightarrow>
               (case resourceLookup of
                  None \<Rightarrow>
                    Some (Inl (Errorf (''Can not use extends in file '' @ inFile @
                                       '' no mechanism provided to files'')), h1)
                | Some lookup \<Rightarrow>
                    (let file = asString C (map_of mapValue (VString ''file''));
                         service = asString C (map_of mapValue (VString ''service''))
                     in if service = [] then Some (Inr serviceData1, h1)
                        else if file = [] then
                          (case datas service of
                             None \<Rightarrow>
                               Some (Inl (Errorf (''Failed to find service '' @ service @ '' to extend'')), h1)
                           | Some sd \<Rightarrow>
                               (case parseV1 n C resourceLookup environmentLookup inFile sd datas h1 of
                                  None \<Rightarrow> None
                                | Some (Inl err, h2) \<Rightarrow> Some (Inl err, h2)
                                | Some (Inr baseService, h2) \<Rightarrow>
                                    Some (extend_base C file inFile service (Some baseService) serviceData1 h2)))
                        else
                          (case lookup file inFile of
                             Inl err \<Rightarrow> Some (Inl err, h1)
                           | Inr (bytes, resolved) \<Rightarrow>
                               (case Unmarshal C bytes h1 of
                                  (Inl err, h2) \<Rightarrow> Some (Inl err, h2)
                                | (Inr baseRawServices, h2) \<Rightarrow>
                                    (case Interpolate C environmentLookup baseRawServices h2 of
                                       (Inl err, h3) \<Rightarrow> Some (Inl err, h3)
                                     | (Inr baseRawServices1, h3) \<Rightarrow>
                                         (case validate C baseRawServices1 h3 of
                                            Some err \<Rightarrow> Some (Inl err, h3)
                                          | None \<Rightarrow>
                                              (case baseRawServices1 service of
                                                 None \<Rightarrow>
                                                   Some (Inl (Errorf (''Failed to find service '' @ service @
                                                                      '' in file '' @ file)), h3)
                                               | Some bs \<Rightarrow>
                                                   (case parseV1 n C resourceLookup environmentLookup
                                                           resolved bs baseRawServices1 h3 of
                                                      None \<Rightarrow> None
                                                    | Some (Inl err, h4) \<Rightarrow>
                                                        Some (extend_base C file inFile service None serviceData1 h4)
                                                    | Some (Inr baseService, h4) \<Rightarrow>
                                                        Some (extend_base C file inFile service
                                                                (Some baseService) serviceData1 h4)))))))))
           | Some other \<Rightarrow> Some (Inr serviceData1, h1)))"

subsection \<open>Concrete inputs for the configuration\<close>

text \<open>
  The file of the spec's example, with a list added: a service \<open>A\<close> with an image, a
  command and two ports, and a service \<open>B\<close> that extends \<open>A\<close> and has its own command
  and one port. No environment files, no
  field that forbids extension but \<open>container_name\<close>, and a lookup that knows no file.
\<close>

fun asString0 :: "val option \<Rightarrow> string" where
  "asString0 (Some (VString s)) = s"
| "asString0 v = []"

definition C0 :: "unit cenv" where
  "C0 = \<lparr>readEnvFile = (\<lambda>rl f sd h. (Inr sd, h)),
          asString = asString0,
          noMerge = [''container_name''],
          Unmarshal = (\<lambda>b h. (Inl (ErrRuntime ''yaml''), h)),
          Interpolate = (\<lambda>e m h. (Inr m, h)),
          validate = (\<lambda>m h. None)\<rparr>"

definition lookup0 :: ResourceLookup where
  "lookup0 file relativeTo = Inl (ErrRuntime ''no such file'')"

definition serviceA :: "string \<rightharpoonup> val" where
  "serviceA = [''image'' \<mapsto> VString ''x'', ''command'' \<mapsto> VString ''a'',
               ''ports'' \<mapsto> VList [VString ''80'', VString ''443'']]"

definition serviceB :: "string \<rightharpoonup> val" where
  "serviceB = [''extends'' \<mapsto> VMap [(VString ''service'', VString ''A'')],
               ''command'' \<mapsto> VString ''b'',
               ''ports'' \<mapsto> VList [VString ''8080'']]"

definition heap0 :: heap where
  "heap0 = \<lparr>cells = (\<lambda>a. if a = 0 then serviceA else if a = 1 then serviceB else Map.empty),
             next_ref = 2\<rparr>"

definition datas0 :: "string \<rightharpoonup> nat" where
  "datas0 = [''A'' \<mapsto> 0, ''B'' \<mapsto> 1]"

text \<open>
  A second file for a reference across files: \<open>compose.yml\<close> has the service \<open>C\<close>, which
  extends the service \<open>A\<close> of \<open>base.yml\<close>; the lookup knows \<open>base.yml\<close>, and parsing its
  bytes puts the service \<open>A\<close> into a new map of the heap.
\<close>

definition lookup_files :: ResourceLookup where
  "lookup_files file relativeTo =
     (if file = ''base.yml'' then Inr (''bytes of base.yml'', ''base.yml'')
      else Inl (ErrRuntime ''no such file''))"

definition C_files :: "unit cenv" where
  "C_files = C0\<lparr>Unmarshal := (\<lambda>b h.
       if b = ''bytes of base.yml''
       then (case alloc serviceA h of (a, h1) \<Rightarrow> (Inr [''A'' \<mapsto> a], h1))
       else (Inl (ErrRuntime ''yaml''), h))\<rparr>"

definition serviceC :: "string \<rightharpoonup> val" where
  "serviceC = [''extends'' \<mapsto> VMap [(VString ''file'', VString ''base.yml''),
                                  (VString ''service'', VString ''A'')],
               ''command'' \<mapsto> VString ''c'',
               ''ports'' \<mapsto> VList [VString ''9090'']]"

definition heap_files :: heap where
  "heap_files = \<lparr>cells = (\<lambda>a. if a = 0 then serviceC else Map.empty), next_ref = 1\<rparr>"

definition datas_files :: "string \<rightharpoonup> nat" where
  "datas_files = [''C'' \<mapsto> 0]"

text \<open>A container of the service \<open>web\<close> whose instance label is not a number.\<close>

definition old_badnum :: ContainerJSON where
  "old_badnum = old0\<lparr>cj_ID := ''fedcba9876543210'', cj_Name := ''/proj_web_2'',
       cj_Config := (cj_Config old0)\<lparr>cc_Labels :=
          [''number'' \<mapsto> ''two'', ''service'' \<mapsto> ''web'', ''project'' \<mapsto> ''proj'']\<rparr>\<rparr>"

text \<open>The binds a create call carried, for reading them off the log.\<close>

fun created_binds :: "Exchange \<Rightarrow> string list" where
  "created_binds (XContainerCreate c h nw n r) = hc_Binds h"
| "created_binds x = []"

section \<open>Properties of the container lifecycle\<close>

subsection \<open>What each operation sends to the runtime\<close>

lemma steps_refl: "steps s s []"
  by (simp add: steps_def)

lemma steps_trans: "steps s s1 xs \<Longrightarrow> steps s1 s2 ys \<Longrightarrow> steps s s2 (xs @ ys)"
  by (simp add: steps_def)

lemma call_logged:
  "call (logged f x) s = (r, s') \<Longrightarrow> steps s s' [x r] \<and> store s' = store s"
  by (auto simp: call_def logged_def steps_def exchanges_def split: prod.splits)

lemma rec_simps:
  "GetContainer (recording rt) n = logged (GetContainer rt n) (XGetContainer n)"
  "GetContainersByFilter (recording rt) f = logged (GetContainersByFilter rt f) (XGetContainersByFilter f)"
  "ContainerInspect (recording rt) n = logged (ContainerInspect rt n) (XContainerInspect n)"
  "ContainerRename (recording rt) i n = logged (ContainerRename rt i n) (XContainerRename i n)"
  "ContainerCreate (recording rt) k h nw n = logged (ContainerCreate rt k h nw n) (XContainerCreate k h nw n)"
  "ContainerRemove (recording rt) i fo v = logged (ContainerRemove rt i fo v) (XContainerRemove i fo v)"
  "ImageInspectWithRaw (recording rt) n = logged (ImageInspectWithRaw rt n) (XImageInspectWithRaw n)"
  by (simp_all add: recording_def)

lemma findExisting_steps:
  "findExisting (recording rt) c s = (r, s') \<Longrightarrow> steps s s' [XGetContainer (c_name c) r] \<and> store s' = store s"
  unfolding findExisting_def rec_simps by (rule call_logged)

lemma collectContainers_steps:
  assumes "collectContainers E (recording rt) service s = (r, s')"
  shows "\<exists>x. is_query x \<and> steps s s' [x] \<and> store s' = store s"
proof -
  obtain r0 s0 where c: "call (GetContainersByFilter (recording rt)
       [(SERVICE, s_name service), (PROJECT, p_Name (ctx_Project (s_context service)))]) s = (r0, s0)"
    by (cases "call (GetContainersByFilter (recording rt)
       [(SERVICE, s_name service), (PROJECT, p_Name (ctx_Project (s_context service)))]) s")
  have "s' = s0" using assms c by (auto simp: collectContainers_def split: sum.splits)
  moreover from c have "steps s s0 [XGetContainersByFilter [(SERVICE, s_name service), (PROJECT, p_Name (ctx_Project (s_context service)))] r0] \<and> store s0 = store s"
    unfolding rec_simps by (rule call_logged)
  ultimately show ?thesis by (metis is_query.simps(1))
qed

lemma Containers_steps:
  assumes "Containers E (recording rt) service s = (r, s')"
  shows "\<exists>x. is_query x \<and> steps s s' [x] \<and> store s' = store s"
proof -
  obtain r0 where "collectContainers E (recording rt) service s = (r0, s')"
    using assms by (auto simp: Containers_def split: prod.splits sum.splits)
  then show ?thesis by (rule collectContainers_steps)
qed

lemma populate_loop_steps:
  "populate_loop E (recording rt) c deps links hc s = (r, s') \<Longrightarrow>
   \<exists>xs. list_all is_query xs \<and> steps s s' xs \<and> store s' = store s"
proof (induction deps arbitrary: links hc s)
  case Nil
  then show ?case by (auto intro!: exI[of _ "[]"] simp: steps_refl)
next
  case (Cons link rest)
  show ?case
  proof (cases "Has (ctx_Project (s_context (c_service c))) (rel_Target link)")
    case False
    with Cons.prems have "populate_loop E (recording rt) c rest links hc s = (r, s')" by simp
    then show ?thesis by (rule Cons.IH)
  next
    case True
    show ?thesis
    proof (cases "CreateService E (rel_Target link)")
      case (Inl err)
      with True Cons.prems have "s' = s" by simp
      then show ?thesis by (auto intro!: exI[of _ "[]"] simp: steps_refl)
    next
      case (Inr service)
      obtain rc s1 where k: "Containers E (recording rt) service s = (rc, s1)"
        by (cases "Containers E (recording rt) service s")
      from Containers_steps[OF k] obtain x where x: "is_query x" "steps s s1 [x]" "store s1 = store s"
        by blast
      show ?thesis
      proof (cases rc)
        case (Inl err)
        with True Inr k Cons.prems have "s' = s1" by simp
        with x show ?thesis by (auto intro!: exI[of _ "[x]"])
      next
        case (Inr containers)
        with True \<open>CreateService E (rel_Target link) = Inr service\<close> k Cons.prems
        obtain links1 hc1 where "populate_loop E (recording rt) c rest links1 hc1 s1 = (r, s')"
          by (auto simp: addIpc_def addNetNs_def split: if_splits)
        from Cons.IH[OF this] obtain xs where xs: "list_all is_query xs" "steps s1 s' xs" "store s' = store s1"
          by blast
        from steps_trans[OF x(2) xs(2)] x xs show ?thesis
          by (auto intro!: exI[of _ "x # xs"])
      qed
    qed
  qed
qed


lemma apply_override_steps: "steps s (apply_override c ov s) []"
  by (simp add: apply_override_def steps_def exchanges_def split: option.splits)

lemma populateAdditionalHostConfig_steps:
  assumes "populateAdditionalHostConfig E (recording rt) c hc s = (r, s')"
  shows "\<exists>xs. list_all is_query xs \<and> steps s s' xs \<and> store s' = store s"
proof -
  obtain r0 where "populate_loop E (recording rt) c
      (DependentServices E (c_service c) (Config (c_service c) s)) [] hc s = (r0, s')"
    using assms by (auto simp: populateAdditionalHostConfig_def split: prod.splits sum.splits)
  then show ?thesis by (rule populate_loop_steps)
qed

lemma inherit_binds_cases:
  assumes "inherit_binds E (recording rt) old cfg hc s = (r, s')"
  shows "store s' = store s \<and>
         (old = [] \<and> steps s s' [] \<and> r = Inr hc
          \<or> (\<exists>e. old \<noteq> [] \<and> steps s s' [XContainerInspect old (Inl e)] \<and> r = Inl e)
          \<or> (\<exists>info. old \<noteq> [] \<and> steps s s' [XContainerInspect old (Inr info)] \<and>
                r = Inr (hc\<lparr>hc_Binds := Merge E (hc_Binds hc) (volumeBinds (cc_Volumes cfg) info)\<rparr>)))"
proof (cases "old = []")
  case True
  with assms show ?thesis by (simp add: inherit_binds_def steps_refl)
next
  case False
  obtain ri s1 where k: "call (ContainerInspect (recording rt) old) s = (ri, s1)"
    by (cases "call (ContainerInspect (recording rt) old) s")
  then have st: "steps s s1 [XContainerInspect old ri] \<and> store s1 = store s"
    unfolding rec_simps by (rule call_logged)
  from assms False k have "s' = s1"
    by (auto simp: inherit_binds_def split: sum.splits)
  with assms False k st show ?thesis
    by (cases ri) (auto simp: inherit_binds_def)
qed

lemma createContainer_cases:
  assumes "createContainer E (recording rt) c img old ov s = (r, s')"
  shows "store s' = store (apply_override c ov s) \<and>
    (\<exists>qs ins fin. steps s s' (qs @ ins @ fin) \<and> list_all is_query qs \<and>
       (ins = [] \<or> (\<exists>ri. old \<noteq> [] \<and> ins = [XContainerInspect old ri])) \<and>
       (fin = [] \<and> isl r
        \<or> (\<exists>cfg hc nw e. fin = [XContainerCreate cfg hc nw (c_name c) (Inl e)] \<and> r = Inl e)
        \<or> (\<exists>cfg hc nw newID.
              fin = [XContainerCreate cfg hc nw (c_name c) (Inr newID), XGetContainer newID r] \<and>
              cc_Image cfg = img \<and>
              (old = [] \<and> ins = []
               \<or> (\<exists>info b. ins = [XContainerInspect old (Inr info)] \<and>
                     hc_Binds hc = Merge E b (volumeBinds (cc_Volumes cfg) info))))))"
proof -
  define s1 where "s1 = apply_override c ov s"
  have st1: "steps s s1 []" unfolding s1_def by (rule apply_override_steps)
  show ?thesis
  proof (cases "ConvertToAPI E (c_service c) (Config (c_service c) s1)")
    case (Inl err)
    with assms have "r = Inl err" "s' = s1"
      by (simp_all add: createContainer_def s1_def Let_def)
    with st1 show ?thesis unfolding s1_def
      by - (rule conjI, simp, rule exI[of _ "[]"], rule exI[of _ "[]"], rule exI[of _ "[]"], auto)
  next
    case (Inr cw)
    define cfg where "cfg = (cw_Config cw)
                 \<lparr>cc_Image := img,
                  cc_Labels := container_labels E c s1 (cc_Labels (cw_Config cw))\<rparr>"
    obtain rp s2 where p: "populateAdditionalHostConfig E (recording rt) c (cw_HostConfig cw) s1 = (rp, s2)"
      by (cases "populateAdditionalHostConfig E (recording rt) c (cw_HostConfig cw) s1")
    from populateAdditionalHostConfig_steps[OF p] obtain qs where
      qs: "list_all is_query qs" "steps s1 s2 qs" "store s2 = store s1" by blast
    have st2: "steps s s2 qs" using steps_trans[OF st1 qs(2)] by simp
    show ?thesis
    proof (cases rp)
      case (Inl err)
      with assms Inr p have "r = Inl err" "s' = s2"
        by (simp_all add: createContainer_def s1_def Let_def)
      with st2 qs show ?thesis unfolding s1_def
        by - (rule conjI, simp, rule exI[of _ qs], rule exI[of _ "[]"], rule exI[of _ "[]"], auto)
    next
      case hc: (Inr hostConfig)
      obtain rb s3 where b: "inherit_binds E (recording rt) old cfg hostConfig s2 = (rb, s3)"
        by (cases "inherit_binds E (recording rt) old cfg hostConfig s2")
      note ib = inherit_binds_cases[OF b]
      show ?thesis
      proof (cases rb)
        case (Inl err)
        with assms Inr p hc b have "r = Inl err" "s' = s3"
          by (simp_all add: createContainer_def s1_def Let_def cfg_def)
        moreover from ib Inl have "old \<noteq> []" "steps s2 s3 [XContainerInspect old (Inl err)]"
          by auto
        moreover note steps_trans[OF st2 this(2)]
        ultimately show ?thesis using qs ib unfolding s1_def
          by - (rule conjI, simp, rule exI[of _ qs], rule exI[of _ "[XContainerInspect old (Inl err)]"],
                rule exI[of _ "[]"], auto)
      next
        case hc1: (Inr hostConfig1)
        obtain ins where ins: "steps s2 s3 ins"
          "old = [] \<and> ins = [] \<or> (\<exists>info. old \<noteq> [] \<and> ins = [XContainerInspect old (Inr info)] \<and>
             hc_Binds hostConfig1 = Merge E (hc_Binds hostConfig) (volumeBinds (cc_Volumes cfg) info))"
          using ib hc1 by auto
        have st3: "steps s s3 (qs @ ins)" using steps_trans[OF st2 ins(1)] .
        have sto3: "store s3 = store s1" using ib qs by simp
        obtain rc s4 where k: "call (ContainerCreate (recording rt) cfg hostConfig1
                                     (cw_NetworkingConfig cw) (c_name c)) s3 = (rc, s4)"
          by (cases "call (ContainerCreate (recording rt) cfg hostConfig1
                                     (cw_NetworkingConfig cw) (c_name c)) s3")
        then have st34: "steps s3 s4 [XContainerCreate cfg hostConfig1 (cw_NetworkingConfig cw) (c_name c) rc] \<and> store s4 = store s3"
          unfolding rec_simps by (rule call_logged)
        show ?thesis
        proof (cases rc)
          case (Inl err)
          with assms Inr p hc b hc1 k have "r = Inl err" "s' = s4"
            by (simp_all add: createContainer_def s1_def Let_def cfg_def)
          moreover have "steps s s4 (qs @ ins @ [XContainerCreate cfg hostConfig1 (cw_NetworkingConfig cw) (c_name c) (Inl err)])"
            using steps_trans[OF st3] st34 Inl by fastforce
          ultimately show ?thesis using qs ins(2) sto3 st34 unfolding s1_def
            by - (rule conjI, simp, rule exI[of _ qs], rule exI[of _ ins],
                  rule exI[of _ "[XContainerCreate cfg hostConfig1 (cw_NetworkingConfig cw) (c_name c) (Inl err)]"], auto)
        next
          case (Inr newID)
          with assms \<open>ConvertToAPI E (c_service c) (Config (c_service c) s1) = Inr cw\<close> p hc b hc1 k
          have g: "call (GetContainer (recording rt) newID) s4 = (r, s')"
            by (simp add: createContainer_def s1_def Let_def cfg_def)
          then have st45: "steps s4 s' [XGetContainer newID r] \<and> store s' = store s4"
            unfolding rec_simps by (rule call_logged)
          have "steps s s' (qs @ ins @ [XContainerCreate cfg hostConfig1 (cw_NetworkingConfig cw) (c_name c) (Inr newID), XGetContainer newID r])"
            using st3 st34 st45 Inr by (simp add: steps_def)
          moreover have "cc_Image cfg = img" by (simp add: cfg_def)
          ultimately show ?thesis using qs ins(2) sto3 st34 st45 unfolding s1_def
            by - (rule conjI, simp, rule exI[of _ qs], rule exI[of _ ins],
                  rule exI[of _ "[XContainerCreate cfg hostConfig1 (cw_NetworkingConfig cw) (c_name c) (Inr newID), XGetContainer newID r]"], auto)
        qed
      qed
    qed
  qed
qed

subsection \<open>Recreating a container\<close>

text \<open>
  C10. When the container exists and its labels hold no configuration hash, or an empty
  one, \<^verbatim>\<open>Recreate\<close> returns the error "Failed to find hash on old container" and has
  done nothing but look the container up: no event, no change of a service
  configuration, and the lookup is the only call that reached the runtime (no rename, no
  create, no remove).
\<close>

theorem Recreate_without_hash:
  assumes "findExisting (recording rt) c s = (Inr (Some container), s1)"
      and "lookup_str (cc_Labels (cj_Config container)) (Str E HASH) = []"
  shows "Recreate E (recording rt) c imageName s =
           (Inl (Errorf (''Failed to find hash on old container: '' @ cj_Name container)), s1)
         \<and> events s1 = events s \<and> store s1 = store s
         \<and> exchanges s1 = exchanges s @ [XGetContainer (c_name c) (Inr (Some container))]"
  using assms findExisting_steps[OF assms(1)] by (simp add: Recreate_def steps_def)

theorem Recreate_without_hash_witness:
  "fst (Recreate E0 R0 c0 ''x'' (state_of [old_nohash] images0)) =
      Inl (Errorf ''Failed to find hash on old container: /proj_web_1'')
   \<and> mem_containers (fst (world (snd (Recreate E0 R0 c0 ''x'' (state_of [old_nohash] images0))))) = [old_nohash]
   \<and> exchanges (snd (Recreate E0 R0 c0 ''x'' (state_of [old_nohash] images0))) =
       [XGetContainer ''proj_web_1'' (Inr (Some old_nohash))]"
proof -
  define s1 where "s1 = (state_of [old_nohash] images0)\<lparr>world :=
     (\<lparr>mem_containers = [old_nohash], mem_images = images0, mem_next = 0\<rparr>,
      [XGetContainer ''proj_web_1'' (Inr (Some old_nohash))])\<rparr>"
  have f: "findExisting (recording (mem_runtime str0)) c0 (state_of [old_nohash] images0) = (Inr (Some old_nohash), s1)"
    by (simp add: findExisting_def call_def rec_simps logged_def state_of_def mem_runtime_def mem_find_def
        c0_def NewContainer_def old_nohash_def old0_def s1_def)
  have h: "lookup_str (cc_Labels (cj_Config old_nohash)) (Str E0 HASH) = []"
    by (simp add: lookup_str_def old_nohash_def E0_def)
  have r: "Recreate E0 R0 c0 ''x'' (state_of [old_nohash] images0) =
      (Inl (Errorf (''Failed to find hash on old container: '' @ cj_Name old_nohash)), s1)"
    using Recreate_without_hash[OF f h, of "''x''"] unfolding R0_def by blast
  show ?thesis unfolding r
    by (simp add: s1_def exchanges_def) (simp add: old_nohash_def old0_def)
qed

text \<open>
  C4. For a container that exists, carries a configuration hash and has a name and an ID
  of at least twelve bytes, \<^verbatim>\<open>Recreate\<close> first looks it up and renames it to its name
  followed by a dash and the first twelve bytes of its ID. When the creation of the
  replacement then fails, \<^verbatim>\<open>Recreate\<close> returns that very error in the state the failed
  creation left: after the rename the runtime saw no second rename and no remove, so the
  renamed container stays. When the creation succeeds, the calls are, in this order: the
  lookup, the rename, the queries for linked services, the inspection of the old
  container, the creation under the canonical name, the lookup of the new container and
  the forced removal of the old one (volumes kept), whose outcome is the result.
\<close>

theorem Recreate_three_steps:
  assumes found: "findExisting (recording rt) c s = (Inr (Some old), s1)"
      and hash: "lookup_str (cc_Labels (cj_Config old)) (Str E HASH) \<noteq> []"
      and nm: "cj_Name old \<noteq> []"
      and idl: "12 \<le> length (cj_ID old)"
      and ren: "call (ContainerRename (recording rt) (cj_ID old)
                       (tl (cj_Name old) @ ''-'' @ take 12 (cj_ID old))) s1 = (None, s2)"
      and cre: "createContainer E (recording rt) c imageName (cj_ID old) None s2 = (rc, s3)"
  shows "(\<forall>e. rc = Inl e \<longrightarrow>
            Recreate E (recording rt) c imageName s = (Inl e, s3) \<and>
            (\<exists>xs. exchanges s3 = exchanges s @
                     [XGetContainer (c_name c) (Inr (Some old)),
                      XContainerRename (cj_ID old) (tl (cj_Name old) @ ''-'' @ take 12 (cj_ID old)) None] @ xs
                   \<and> list_all (\<lambda>x. \<not> is_rename x \<and> \<not> is_remove x) xs))
       \<and> (\<forall>new rr s4. rc = Inr (Some new) \<and>
            call (ContainerRemove (recording rt) (cj_ID old) True False) s3 = (rr, s4) \<longrightarrow>
            Recreate E (recording rt) c imageName s =
              (case rr of None \<Rightarrow> Inr (Some new) | Some e \<Rightarrow> Inl e, s4) \<and>
            (\<exists>qs info cfg hc nw newID.
               exchanges s4 = exchanges s @
                 [XGetContainer (c_name c) (Inr (Some old)),
                  XContainerRename (cj_ID old) (tl (cj_Name old) @ ''-'' @ take 12 (cj_ID old)) None] @ qs @
                 [XContainerInspect (cj_ID old) (Inr info),
                  XContainerCreate cfg hc nw (c_name c) (Inr newID),
                  XGetContainer newID (Inr (Some new)),
                  XContainerRemove (cj_ID old) True False rr]
               \<and> list_all is_query qs))"
proof -
  let ?newName = "tl (cj_Name old) @ ''-'' @ take 12 (cj_ID old)"
  have st1: "steps s s1 [XGetContainer (c_name c) (Inr (Some old))]"
    using findExisting_steps[OF found] by simp
  have st2: "steps s1 s2 [XContainerRename (cj_ID old) ?newName None]"
    using call_logged[OF ren[unfolded rec_simps]] by simp
  have st12: "exchanges s2 = exchanges s @ [XGetContainer (c_name c) (Inr (Some old)),
                  XContainerRename (cj_ID old) ?newName None]"
    using st1 st2 by (simp add: steps_def)
  have idne: "cj_ID old \<noteq> []" using idl by auto
  from createContainer_cases[OF cre] obtain qs ins fin where
    cc: "steps s2 s3 (qs @ ins @ fin)" "list_all is_query qs"
        "ins = [] \<or> (\<exists>ri. cj_ID old \<noteq> [] \<and> ins = [XContainerInspect (cj_ID old) ri])"
        "fin = [] \<and> isl rc
        \<or> (\<exists>cfg hc nw e. fin = [XContainerCreate cfg hc nw (c_name c) (Inl e)] \<and> rc = Inl e)
        \<or> (\<exists>cfg hc nw newID.
              fin = [XContainerCreate cfg hc nw (c_name c) (Inr newID), XGetContainer newID rc] \<and>
              cc_Image cfg = imageName \<and>
              (cj_ID old = [] \<and> ins = []
               \<or> (\<exists>info b. ins = [XContainerInspect (cj_ID old) (Inr info)] \<and>
                     hc_Binds hc = Merge E b (volumeBinds (cc_Volumes cfg) info))))"
    by blast
  have q: "list_all (\<lambda>x. \<not> is_rename x \<and> \<not> is_remove x) qs"
    using cc(2) by (induction qs) (auto elim: is_query.elims)
  have nomut: "list_all (\<lambda>x. \<not> is_rename x \<and> \<not> is_remove x) (qs @ ins @ fin)"
    using q cc(3,4) by auto
  have ex3: "exchanges s3 = exchanges s @ [XGetContainer (c_name c) (Inr (Some old)),
                  XContainerRename (cj_ID old) ?newName None] @ (qs @ ins @ fin)"
    using cc(1) st12 by (simp add: steps_def)
  have fail: "Recreate E (recording rt) c imageName s = (Inl e, s3)" if "rc = Inl e" for e
    using that found hash nm idl ren cre by (simp add: Recreate_def Let_def)
  have succ: "Recreate E (recording rt) c imageName s =
              (case rr of None \<Rightarrow> Inr (Some new) | Some e \<Rightarrow> Inl e, s4) \<and>
            (\<exists>qs info cfg hc nw newID.
               exchanges s4 = exchanges s @
                 [XGetContainer (c_name c) (Inr (Some old)),
                  XContainerRename (cj_ID old) ?newName None] @ qs @
                 [XContainerInspect (cj_ID old) (Inr info),
                  XContainerCreate cfg hc nw (c_name c) (Inr newID),
                  XGetContainer newID (Inr (Some new)),
                  XContainerRemove (cj_ID old) True False rr]
               \<and> list_all is_query qs)"
    if rc: "rc = Inr (Some new)"
    and rem: "call (ContainerRemove (recording rt) (cj_ID old) True False) s3 = (rr, s4)"
    for new rr s4
  proof
    show "Recreate E (recording rt) c imageName s =
              (case rr of None \<Rightarrow> Inr (Some new) | Some e \<Rightarrow> Inl e, s4)"
      using rc rem found hash nm idl ren cre
      by (cases rr) (simp_all add: Recreate_def Let_def)
    from cc(4) rc idne obtain cfg hc nw newID info where
      fin: "fin = [XContainerCreate cfg hc nw (c_name c) (Inr newID), XGetContainer newID rc]"
      and ins: "ins = [XContainerInspect (cj_ID old) (Inr info)]"
      by auto
    have "steps s3 s4 [XContainerRemove (cj_ID old) True False rr]"
      using call_logged[OF rem[unfolded rec_simps]] by simp
    then have "exchanges s4 = exchanges s @
                 [XGetContainer (c_name c) (Inr (Some old)),
                  XContainerRename (cj_ID old) ?newName None] @ qs @
                 [XContainerInspect (cj_ID old) (Inr info),
                  XContainerCreate cfg hc nw (c_name c) (Inr newID),
                  XGetContainer newID (Inr (Some new)),
                  XContainerRemove (cj_ID old) True False rr]"
      using ex3 fin ins rc by (simp add: steps_def)
    with cc(2) show "\<exists>qs info cfg hc nw newID.
               exchanges s4 = exchanges s @
                 [XGetContainer (c_name c) (Inr (Some old)),
                  XContainerRename (cj_ID old) ?newName None] @ qs @
                 [XContainerInspect (cj_ID old) (Inr info),
                  XContainerCreate cfg hc nw (c_name c) (Inr newID),
                  XGetContainer newID (Inr (Some new)),
                  XContainerRemove (cj_ID old) True False rr]
               \<and> list_all is_query qs"
      by blast
  qed
  show ?thesis
    using fail succ ex3 nomut by blast
qed

subsection \<open>Running the code on concrete inputs\<close>


lemmas mem_defs = call_def R0_def rec_simps logged_def
   state_of_def mem_runtime_def mem_find_def c0_def NewContainer_def
   E0_def Config_def svc0_def images0_def hc0_def
   Name_def project0_def exchanges_def cfg0_def old0_def

lemmas cc_defs = createContainer_def apply_override_def populateAdditionalHostConfig_def inherit_binds_def
   container_labels_def getHash_def Let_def volumeBinds_def

theorem Recreate_three_steps_witness:
  "fst (Recreate E0 R0 c0 ''x'' (state_of [old0] [])) = Inl ErrImageNotFound
   \<and> map cj_Name (mem_containers (fst (world (snd (Recreate E0 R0 c0 ''x'' (state_of [old0] []))))))
       = [''/proj_web_1-0123456789ab'']
   \<and> map_sum id (map_option cj_Name) (fst (Recreate E0 R0 c0 ''x'' (state_of [old0] images0)))
       = Inr (Some ''/proj_web_1'')
   \<and> map cj_ID (mem_containers (fst (world (snd (Recreate E0 R0 c0 ''x'' (state_of [old0] images0))))))
       = [''container-id-'']"
proof -
  let ?rt = "mem_runtime str0"
  let ?nn = "tl (cj_Name old0) @ ''-'' @ take 12 (cj_ID old0)"
  let ?s1 = "\<lambda>imgs. (state_of [old0] imgs)\<lparr>world :=
        (\<lparr>mem_containers = [old0], mem_images = imgs, mem_next = 0\<rparr>,
         [XGetContainer ''proj_web_1'' (Inr (Some old0))])\<rparr>"
  let ?s2 = "\<lambda>imgs. (state_of [old0] imgs)\<lparr>world :=
        (\<lparr>mem_containers = [old0\<lparr>cj_Name := ''/proj_web_1-0123456789ab''\<rparr>],
          mem_images = imgs, mem_next = 0\<rparr>,
         [XGetContainer ''proj_web_1'' (Inr (Some old0)),
          XContainerRename (cj_ID old0) ?nn None])\<rparr>"
  have h: "lookup_str (cc_Labels (cj_Config old0)) (Str E0 HASH) \<noteq> []"
    by (simp add: lookup_str_def old0_def E0_def)
  have n: "cj_Name old0 \<noteq> []" and i: "12 \<le> length (cj_ID old0)"
    by (simp_all add: old0_def)
  have f: "findExisting (recording ?rt) c0 (state_of [old0] imgs) = (Inr (Some old0), ?s1 imgs)" for imgs
    by (simp add: findExisting_def call_def rec_simps logged_def state_of_def mem_runtime_def
        mem_find_def c0_def NewContainer_def old0_def)
  have r: "call (ContainerRename (recording ?rt) (cj_ID old0) ?nn) (?s1 imgs) = (None, ?s2 imgs)" for imgs
    by (simp add: call_def rec_simps logged_def state_of_def mem_runtime_def old0_def)
  note run = Recreate_three_steps[OF f h n i r]
  \<comment> \<open>the image is unknown: creating the replacement fails\<close>
  define t3 where "t3 = snd (createContainer E0 (recording ?rt) c0 ''x'' (cj_ID old0) None (?s2 []))"
  have "fst (createContainer E0 (recording ?rt) c0 ''x'' (cj_ID old0) None (?s2 [])) = Inl ErrImageNotFound"
    by (simp add: cc_defs mem_defs)
  then have c1: "createContainer E0 (recording ?rt) c0 ''x'' (cj_ID old0) None (?s2 []) = (Inl ErrImageNotFound, t3)"
    by (simp add: t3_def prod_eq_iff)
  have a: "Recreate E0 R0 c0 ''x'' (state_of [old0] []) = (Inl ErrImageNotFound, t3)"
    using run[OF c1] unfolding R0_def by blast
  have a2: "map cj_Name (mem_containers (fst (world t3))) = [''/proj_web_1-0123456789ab'']"
    by (simp add: t3_def cc_defs mem_defs)
  \<comment> \<open>the image is known: all three steps succeed\<close>
  define u3 where "u3 = snd (createContainer E0 (recording ?rt) c0 ''x'' (cj_ID old0) None (?s2 images0))"
  define new where "new = the (projr (fst (createContainer E0 (recording ?rt) c0 ''x'' (cj_ID old0) None (?s2 images0))))"
  define u4 where "u4 = snd (call (ContainerRemove (recording ?rt) (cj_ID old0) True False) u3)"
  have "\<exists>k. fst (createContainer E0 (recording ?rt) c0 ''x'' (cj_ID old0) None (?s2 images0)) = Inr (Some k)"
    by (simp add: cc_defs mem_defs)
  then have c2: "createContainer E0 (recording ?rt) c0 ''x'' (cj_ID old0) None (?s2 images0) = (Inr (Some new), u3)"
    by (auto simp: u3_def new_def prod_eq_iff)
  have "fst (call (ContainerRemove (recording ?rt) (cj_ID old0) True False) u3) = None"
    by (simp add: u3_def cc_defs mem_defs)
  then have m: "call (ContainerRemove (recording ?rt) (cj_ID old0) True False) u3 = (None, u4)"
    by (simp add: u4_def prod_eq_iff)
  have b: "Recreate E0 R0 c0 ''x'' (state_of [old0] images0) = (Inr (Some new), u4)"
    using run[OF c2] m unfolding R0_def by fastforce
  have b1: "cj_Name new = ''/proj_web_1''"
    by (simp add: new_def cc_defs mem_defs)
  have b2: "map cj_ID (mem_containers (fst (world u4))) = [''container-id-'']"
    by (simp add: u4_def u3_def cc_defs mem_defs)
  show ?thesis
    by (simp add: a a2 b b1 b2)
qed

subsection \<open>What the operations leave unchanged\<close>

lemma call_frame: "call f s = (r, s') \<Longrightarrow> store s' = store s \<and> events s' = events s"
  by (auto simp: call_def split: prod.splits)

lemma findExisting_frame:
  "findExisting rt c s = (r, s') \<Longrightarrow> store s' = store s \<and> events s' = events s"
  unfolding findExisting_def by (rule call_frame)

lemma Containers_frame:
  "Containers E rt service s = (r, s') \<Longrightarrow> store s' = store s \<and> events s' = events s"
  by (auto simp: Containers_def collectContainers_def split: prod.splits sum.splits dest: call_frame)

lemma populate_loop_frame:
  "populate_loop E rt c deps links hc s = (r, s') \<Longrightarrow> store s' = store s \<and> events s' = events s"
proof (induction deps arbitrary: links hc s)
  case Nil
  then show ?case by simp
next
  case (Cons link rest)
  show ?case
  proof (cases "Has (ctx_Project (s_context (c_service c))) (rel_Target link)")
    case False
    with Cons.prems have "populate_loop E rt c rest links hc s = (r, s')" by simp
    then show ?thesis by (rule Cons.IH)
  next
    case True
    show ?thesis
    proof (cases "CreateService E (rel_Target link)")
      case (Inl err)
      with True Cons.prems show ?thesis by simp
    next
      case (Inr service)
      obtain rc s1 where k: "Containers E rt service s = (rc, s1)"
        by (cases "Containers E rt service s")
      note fr = Containers_frame[OF k]
      show ?thesis
      proof (cases rc)
        case (Inl err)
        with True Inr k Cons.prems fr show ?thesis by simp
      next
        case (Inr containers)
        with True \<open>CreateService E (rel_Target link) = Inr service\<close> k Cons.prems
        obtain links1 hc1 where "populate_loop E rt c rest links1 hc1 s1 = (r, s')"
          by (auto simp: addIpc_def addNetNs_def split: if_splits)
        from Cons.IH[OF this] fr show ?thesis by simp
      qed
    qed
  qed
qed

lemma populate_loop_hostConfig:
  "populate_loop E rt c deps links hc s = (Inr (links', hc'), s') \<Longrightarrow> hc' = hc"
proof (induction deps arbitrary: links hc s)
  case Nil
  then show ?case by simp
next
  case (Cons link rest)
  show ?case
  proof (cases "Has (ctx_Project (s_context (c_service c))) (rel_Target link)")
    case False
    with Cons.prems have "populate_loop E rt c rest links hc s = (Inr (links', hc'), s')" by simp
    then show ?thesis by (rule Cons.IH)
  next
    case True
    with Cons.prems obtain links1 s1 where
      "populate_loop E rt c rest links1 hc s1 = (Inr (links', hc'), s')"
      by (auto simp: addIpc_def addNetNs_def split: sum.splits prod.splits if_splits)
    then show ?thesis by (rule Cons.IH)
  qed
qed

lemma populateAdditionalHostConfig_frame:
  "populateAdditionalHostConfig E rt c hc s = (r, s') \<Longrightarrow> store s' = store s \<and> events s' = events s"
  by (auto simp: populateAdditionalHostConfig_def split: prod.splits sum.splits dest: populate_loop_frame)

lemma inherit_binds_frame:
  "inherit_binds E rt old cfg hc s = (r, s') \<Longrightarrow> store s' = store s \<and> events s' = events s"
  by (auto simp: inherit_binds_def split: if_splits prod.splits sum.splits dest: call_frame)

lemma apply_override_events: "events (apply_override c ov s) = events s"
  by (simp add: apply_override_def split: option.splits)

lemma createContainer_frame:
  assumes "createContainer E rt c img old ov s = (r, s')"
  shows "store s' = store (apply_override c ov s) \<and> events s' = events s"
proof -
  define s1 where "s1 = apply_override c ov s"
  have "store s' = store s1 \<and> events s' = events s1"
    using assms unfolding createContainer_def Let_def s1_def[symmetric]
    by (auto split: sum.splits prod.splits
        dest!: populateAdditionalHostConfig_frame inherit_binds_frame call_frame)
  then show ?thesis by (simp add: s1_def apply_override_events)
qed

subsection \<open>Creating a container once\<close>

text \<open>
  C1. (i) When the lookup finds a container, \<^verbatim>\<open>Create\<close> returns that record; no event
  is emitted, no configuration changes and the lookup is the only call to the runtime.
  (ii) When the lookup finds none and the creation succeeds, \<^verbatim>\<open>Create\<close> emits exactly one
  \<^verbatim>\<open>ContainerCreated\<close> event for the service, and exactly one create call, under the
  container's name and for the given image, reached the runtime. (iii) Hence two calls in a
  row, the first creating the container and the second finding it: the second returns the
  found record, and over both calls there is one event and one create call.
\<close>

theorem Create_idempotent:
  "(\<forall>ex s1. findExisting (recording rt) c s = (Inr (Some ex), s1) \<longrightarrow>
       Create E (recording rt) c imageName s = (Inr (Some ex), s1) \<and>
       events s1 = events s \<and> store s1 = store s \<and>
       exchanges s1 = exchanges s @ [XGetContainer (c_name c) (Inr (Some ex))])
   \<and> (\<forall>s1 new s2. findExisting (recording rt) c s = (Inr None, s1) \<and>
         createContainer E (recording rt) c imageName [] None s1 = (Inr new, s2) \<longrightarrow>
       Create E (recording rt) c imageName s =
         (Inr new, Notify ContainerCreated (c_serviceName c) [(''name'', c_name c)] s2) \<and>
       events (Notify ContainerCreated (c_serviceName c) [(''name'', c_name c)] s2) =
         events s @ [\<lparr>ev_EventType = ContainerCreated, ev_ServiceName = c_serviceName c,
                      ev_Data = [(''name'', c_name c)]\<rparr>] \<and>
       (\<exists>qs cfg hc nw newID.
          exchanges (Notify ContainerCreated (c_serviceName c) [(''name'', c_name c)] s2) =
            exchanges s @ XGetContainer (c_name c) (Inr None) # qs @
              [XContainerCreate cfg hc nw (c_name c) (Inr newID), XGetContainer newID (Inr new)]
          \<and> list_all is_query qs \<and> cc_Image cfg = imageName))
   \<and> (\<forall>s0 new sA ex sB. findExisting (recording rt) c s = (Inr None, s0) \<and>
         Create E (recording rt) c imageName s = (Inr new, sA) \<and>
         findExisting (recording rt) c sA = (Inr (Some ex), sB) \<longrightarrow>
       Create E (recording rt) c imageName sA = (Inr (Some ex), sB) \<and>
       events sB = events s @ [\<lparr>ev_EventType = ContainerCreated, ev_ServiceName = c_serviceName c,
                      ev_Data = [(''name'', c_name c)]\<rparr>] \<and>
       length (filter is_create (drop (length (exchanges s)) (exchanges sB))) = 1)"
proof -
  let ?ev = "\<lparr>ev_EventType = ContainerCreated, ev_ServiceName = c_serviceName c,
                      ev_Data = [(''name'', c_name c)]\<rparr>"
  let ?N = "Notify ContainerCreated (c_serviceName c) [(''name'', c_name c)]"
  have exists: "Create E (recording rt) c imageName s = (Inr (Some ex), s1) \<and>
       events s1 = events s \<and> store s1 = store s \<and>
       exchanges s1 = exchanges s @ [XGetContainer (c_name c) (Inr (Some ex))]"
    if "findExisting (recording rt) c s = (Inr (Some ex), s1)" for ex s1 and s :: "('a \<times> Exchange list) state"
    using that findExisting_steps[OF that]
    by (simp add: Create_def CreateWithOverride_def steps_def)
  have absent: "Create E (recording rt) c imageName s = (Inr new, ?N s2) \<and>
       events (?N s2) = events s @ [?ev] \<and>
       (\<exists>qs cfg hc nw newID.
          exchanges (?N s2) =
            exchanges s @ XGetContainer (c_name c) (Inr None) # qs @
              [XContainerCreate cfg hc nw (c_name c) (Inr newID), XGetContainer newID (Inr new)]
          \<and> list_all is_query qs \<and> cc_Image cfg = imageName)"
    if f: "findExisting (recording rt) c s = (Inr None, s1)"
    and k: "createContainer E (recording rt) c imageName [] None s1 = (Inr new, s2)" for s1 new s2
  proof -
    have r: "Create E (recording rt) c imageName s = (Inr new, ?N s2)"
      using f k by (simp add: Create_def CreateWithOverride_def Name_def)
    have st1: "steps s s1 [XGetContainer (c_name c) (Inr None)]"
      using findExisting_steps[OF f] by simp
    from createContainer_cases[OF k] obtain qs cfg hc nw newID where
      st2: "steps s1 s2 (qs @ [XContainerCreate cfg hc nw (c_name c) (Inr newID), XGetContainer newID (Inr new)])"
      and qs: "list_all is_query qs" "cc_Image cfg = imageName"
      by auto
    have e: "events (?N s2) = events s @ [?ev]"
      using st1 st2 by (simp add: Notify_def steps_def)
    have x: "exchanges (?N s2) = exchanges s @ XGetContainer (c_name c) (Inr None) # qs @
              [XContainerCreate cfg hc nw (c_name c) (Inr newID), XGetContainer newID (Inr new)]"
      using st1 st2 by (simp add: Notify_def steps_def exchanges_def)
    from r e x qs show ?thesis by blast
  qed
  have twice: "Create E (recording rt) c imageName sA = (Inr (Some ex), sB) \<and>
       events sB = events s @ [?ev] \<and>
       length (filter is_create (drop (length (exchanges s)) (exchanges sB))) = 1"
    if f: "findExisting (recording rt) c s = (Inr None, s0)"
    and k: "Create E (recording rt) c imageName s = (Inr new, sA)"
    and g: "findExisting (recording rt) c sA = (Inr (Some ex), sB)" for s0 new sA ex sB
  proof -
    obtain s2 where k2: "createContainer E (recording rt) c imageName [] None s0 = (Inr new, s2)"
      and sA: "sA = ?N s2"
      using f k by (auto simp: Create_def CreateWithOverride_def Name_def split: prod.splits sum.splits)
    from absent[OF f k2] sA obtain qs cfg hc nw newID where
      a: "events sA = events s @ [?ev]"
         "exchanges sA = exchanges s @ XGetContainer (c_name c) (Inr None) # qs @
              [XContainerCreate cfg hc nw (c_name c) (Inr newID), XGetContainer newID (Inr new)]"
         "list_all is_query qs"
      by auto
    have nq: "filter is_create qs = []"
      using a(3) by (induction qs) (auto elim: is_query.elims)
    from exists[OF g] a nq show ?thesis by simp
  qed
  from exists absent twice show ?thesis by blast
qed

theorem Create_idempotent_witness:
  "fst (Create E0 R0 c0 ''x'' (snd (Create E0 R0 c0 ''x'' (state_of [] images0)))) =
     fst (Create E0 R0 c0 ''x'' (state_of [] images0))
   \<and> events (snd (Create E0 R0 c0 ''x'' (snd (Create E0 R0 c0 ''x'' (state_of [] images0))))) =
       [\<lparr>ev_EventType = ContainerCreated, ev_ServiceName = ''web'', ev_Data = [(''name'', ''proj_web_1'')]\<rparr>]
   \<and> map cj_Name (mem_containers (fst (world
        (snd (Create E0 R0 c0 ''x'' (snd (Create E0 R0 c0 ''x'' (state_of [] images0)))))))) =
       [''/proj_web_1'']"
proof -
  let ?rt = "mem_runtime str0"
  let ?s = "state_of [] images0"
  define s0 where "s0 = snd (findExisting (recording ?rt) c0 ?s)"
  define new where "new = projr (fst (Create E0 (recording ?rt) c0 ''x'' ?s))"
  define sA where "sA = snd (Create E0 (recording ?rt) c0 ''x'' ?s)"
  define ex where "ex = the (projr (fst (findExisting (recording ?rt) c0 sA)))"
  define sB where "sB = snd (findExisting (recording ?rt) c0 sA)"
  have "fst (findExisting (recording ?rt) c0 ?s) = Inr None"
    by (simp add: findExisting_def mem_defs)
  then have f: "findExisting (recording ?rt) c0 ?s = (Inr None, s0)"
    by (simp add: s0_def prod_eq_iff)
  have "\<exists>k. fst (Create E0 (recording ?rt) c0 ''x'' ?s) = Inr (Some k)"
    by (simp add: Create_def CreateWithOverride_def findExisting_def Notify_def cc_defs mem_defs)
  then have k: "Create E0 (recording ?rt) c0 ''x'' ?s = (Inr new, sA)"
    by (auto simp: new_def sA_def prod_eq_iff)
  have "\<exists>k. fst (findExisting (recording ?rt) c0 sA) = Inr (Some k)"
    by (simp add: sA_def Create_def CreateWithOverride_def findExisting_def Notify_def cc_defs mem_defs)
  then have g: "findExisting (recording ?rt) c0 sA = (Inr (Some ex), sB)"
    by (auto simp: ex_def sB_def prod_eq_iff)
  have n: "new = Some ex"
    by (simp add: new_def ex_def sA_def Create_def CreateWithOverride_def findExisting_def Notify_def cc_defs mem_defs)
  from Create_idempotent[of ?rt c0 ?s E0 "''x''"] f k g
  have t: "Create E0 (recording ?rt) c0 ''x'' sA = (Inr (Some ex), sB)"
    and e: "events sB = events ?s @ [\<lparr>ev_EventType = ContainerCreated, ev_ServiceName = c_serviceName c0,
                      ev_Data = [(''name'', c_name c0)]\<rparr>]"
    by blast+
  have w: "map cj_Name (mem_containers (fst (world sB))) = [''/proj_web_1'']"
    by (simp add: sB_def sA_def Create_def CreateWithOverride_def findExisting_def Notify_def cc_defs mem_defs)
  have e0: "events ?s = []" "c_serviceName c0 = ''web''" "c_name c0 = ''proj_web_1''"
    by (simp_all add: state_of_def c0_def NewContainer_def svc0_def)
  have k': "Create E0 R0 c0 ''x'' ?s = (Inr new, sA)" using k by (simp add: R0_def)
  have t': "Create E0 R0 c0 ''x'' sA = (Inr (Some ex), sB)" using t by (simp add: R0_def)
  show ?thesis by (simp add: k' t' e w n e0)
qed

subsection \<open>Drift\<close>

text \<open>
  C2. For a container that exists, and an image inspection that either succeeds or
  reports the image as not found, \<^verbatim>\<open>OutOfSync\<close> returns true exactly when (a) the
  recorded image reference differs from the target, or (b) the stored hash label differs
  from the hash of the service's current configuration, or (c) the image was found and
  its ID differs from the image ID of the container. When the image is not found the
  result is (a) or (b): no error, and no drift on account of the image.
\<close>

theorem OutOfSync_iff:
  assumes found: "findExisting rt c s = (Inr (Some container), s1)"
      and insp: "call (ImageInspectWithRaw rt imageName) s1 = (ri, s2)"
      and other: "\<forall>e. ri = Inl e \<longrightarrow> IsErrImageNotFound e"
  shows "fst (OutOfSync E rt c imageName s) =
           Inr (cc_Image (cj_Config container) \<noteq> imageName
                \<or> lookup_str (cc_Labels (cj_Config container)) (Str E HASH) \<noteq> getHash E c s
                \<or> (\<exists>img. ri = Inr img \<and> ii_ID img \<noteq> cj_Image container))
         \<and> (isl ri \<longrightarrow>
              fst (OutOfSync E rt c imageName s) =
                Inr (cc_Image (cj_Config container) \<noteq> imageName
                     \<or> lookup_str (cc_Labels (cj_Config container)) (Str E HASH) \<noteq> getHash E c s))"
proof -
  have h: "getHash E c s1 = getHash E c s"
    using findExisting_frame[OF found] by (simp add: getHash_def Config_def)
  show ?thesis
    using found insp other h
    by (cases ri) (auto simp: OutOfSync_def)
qed

theorem OutOfSync_iff_witness:
  "fst (OutOfSync E0 R0 c0 ''x'' (state_of [old0] [])) = Inr False
   \<and> fst (OutOfSync E0 R0 c0 ''x'' (state_of [old0] images0)) = Inr False
   \<and> fst (OutOfSync E0 R0 c0 ''x'' (state_of [old0] [(''x'', ''sha-rebuilt'')])) = Inr True
   \<and> fst (OutOfSync E0 R0 c0 ''y'' (state_of [old0] images0)) = Inr True"
proof -
  let ?rt = "recording (mem_runtime str0)"
  let ?s1 = "\<lambda>imgs. (state_of [old0] imgs)\<lparr>world :=
        (\<lparr>mem_containers = [old0], mem_images = imgs, mem_next = 0\<rparr>,
         [XGetContainer ''proj_web_1'' (Inr (Some old0))])\<rparr>"
  have f: "findExisting ?rt c0 (state_of [old0] imgs) = (Inr (Some old0), ?s1 imgs)" for imgs
    by (simp add: findExisting_def call_def rec_simps logged_def state_of_def mem_runtime_def
        mem_find_def c0_def NewContainer_def old0_def)
  have i: "call (ImageInspectWithRaw ?rt n) (?s1 imgs) =
       (case map_of imgs n of None \<Rightarrow> Inl ErrImageNotFound | Some iid \<Rightarrow> Inr \<lparr>ii_ID = iid\<rparr>,
        snd (call (ImageInspectWithRaw ?rt n) (?s1 imgs)))" for imgs n
    by (simp add: call_def rec_simps logged_def state_of_def mem_runtime_def prod_eq_iff)
  have o: "\<forall>e. (case map_of imgs n of None \<Rightarrow> Inl ErrImageNotFound | Some iid \<Rightarrow> Inr \<lparr>ii_ID = iid\<rparr>) = Inl e
       \<longrightarrow> IsErrImageNotFound e" for imgs :: "(string \<times> string) list" and n
    by (auto simp: IsErrImageNotFound_def split: option.splits)
  note t = OutOfSync_iff[where E = E0, OF f i o, THEN conjunct1]
  have hh: "lookup_str (cc_Labels (cj_Config old0)) (Str E0 HASH) = getHash E0 c0 (state_of [old0] imgs)" for imgs
    by (simp add: lookup_str_def old0_def E0_def getHash_def Config_def state_of_def cfg0_def c0_def
        NewContainer_def svc0_def)
  have fld: "cc_Image (cj_Config old0) = ''x''" "cj_Image old0 = ''sha-x''"
    by (simp_all add: old0_def)
  show ?thesis
    unfolding R0_def t by (simp add: hh fld images0_def)
qed

subsection \<open>The override of a run\<close>

text \<open>
  C3, as amended. A create call with an override writes the override's command, tty and
  stdin values into the configuration of the owning service, and they are still there
  when the call has returned, with or without an error; the other fields of that
  configuration and all other configurations are unchanged.
\<close>

theorem override_written_to_service:
  assumes "createContainer E rt c imageName oldContainer (Some ov) s = (r, s')"
  shows "store s' (s_serviceConfig (c_service c)) =
           (store s (s_serviceConfig (c_service c)))
             \<lparr>sc_Command := sc_Command ov, sc_Tty := sc_Tty ov, sc_StdinOpen := sc_StdinOpen ov\<rparr>
         \<and> (\<forall>a. a \<noteq> s_serviceConfig (c_service c) \<longrightarrow> store s' a = store s a)"
  using createContainer_frame[OF assms] by (simp add: apply_override_def)

theorem override_written_to_service_witness:
  "store (snd (createContainer E0 R0 c0 ''x'' [] (Some (cfg0\<lparr>sc_Command := [''b''], sc_Tty := True\<rparr>))
                 (state_of [] images0))) 0
     = cfg0\<lparr>sc_Command := [''b''], sc_Tty := True\<rparr>
   \<and> store (snd (createContainer E0 R0 c0 ''x'' [] (Some (cfg0\<lparr>sc_Command := [''b''], sc_Tty := True\<rparr>))
                 (state_of [] images0))) 1 = cfg0"
proof -
  let ?ov = "cfg0\<lparr>sc_Command := [''b''], sc_Tty := True\<rparr>"
  let ?s = "state_of [] images0"
  have k: "createContainer E0 R0 c0 ''x'' [] (Some ?ov) ?s =
        (fst (createContainer E0 R0 c0 ''x'' [] (Some ?ov) ?s),
         snd (createContainer E0 R0 c0 ''x'' [] (Some ?ov) ?s))"
    by simp
  have a: "s_serviceConfig (c_service c0) = 0" "store ?s a = cfg0" for a
    by (simp_all add: c0_def NewContainer_def svc0_def state_of_def)
  show ?thesis
    using override_written_to_service[OF k] by (simp add: a cfg0_def)
qed

text \<open>
  The claim C3 as the spec states it (the service's configuration unchanged in every field
  after the call) fails: after a create with the command \<open>b\<close> and a tty, the service's
  configuration has them, where it had the command \<open>a\<close> and no tty.
\<close>

theorem override_written_to_service_counterexample:
  "store (snd (CreateWithOverride E0 R0 c0 ''x'' (Some (cfg0\<lparr>sc_Command := [''b''], sc_Tty := True\<rparr>))
                 (state_of [] images0))) (s_serviceConfig (c_service c0))
     = cfg0\<lparr>sc_Command := [''b''], sc_Tty := True\<rparr>
   \<and> store (state_of [] images0) (s_serviceConfig (c_service c0)) = cfg0
   \<and> cfg0\<lparr>sc_Command := [''b''], sc_Tty := True\<rparr> \<noteq> cfg0"
  by (simp add: CreateWithOverride_def findExisting_def Notify_def cc_defs mem_defs)

subsection \<open>Shared namespaces\<close>

text \<open>
  C9, as amended. \<^verbatim>\<open>addIpc\<close> and \<^verbatim>\<open>addNetNs\<close> return the host configuration they were
  given and no error. Whenever the derivation of the host configuration succeeds, the IPC
  mode and the network mode are those it started with; and for a service whose only
  relationship is a shared IPC or network namespace with a service of the project that
  can be created and whose containers can be listed, the derivation succeeds and changes
  nothing but the links: the declared relationship is ignored without an error.
\<close>

theorem namespace_relationships_ignored:
  "addIpc hostConfig service containers = Inr hostConfig
   \<and> addNetNs hostConfig service containers = Inr hostConfig
   \<and> (\<forall>hostConfig1 s1. populateAdditionalHostConfig E rt c hostConfig s = (Inr hostConfig1, s1) \<longrightarrow>
         hc_IpcMode hostConfig1 = hc_IpcMode hostConfig \<and>
         hc_NetworkMode hostConfig1 = hc_NetworkMode hostConfig)
   \<and> (\<forall>link target cs s1.
         DependentServices E (c_service c) (Config (c_service c) s) = [link] \<and>
         (rel_Type link = RelTypeIpcNamespace \<or> rel_Type link = RelTypeNetNamespace) \<and>
         Has (ctx_Project (s_context (c_service c))) (rel_Target link) \<and>
         CreateService E (rel_Target link) = Inr target \<and>
         Containers E rt target s = (Inr cs, s1) \<longrightarrow>
         populateAdditionalHostConfig E rt c hostConfig s =
           (Inr (hostConfig\<lparr>hc_Links := sc_ExternalLinks (Config (c_service c) s1)\<rparr>), s1))"
proof -
  have a: "hc_IpcMode hostConfig1 = hc_IpcMode hostConfig \<and>
         hc_NetworkMode hostConfig1 = hc_NetworkMode hostConfig"
    if "populateAdditionalHostConfig E rt c hostConfig s = (Inr hostConfig1, s1)" for hostConfig1 s1
    using that
    by (auto simp: populateAdditionalHostConfig_def split: prod.splits sum.splits
        dest!: populate_loop_hostConfig)
  have b: "populateAdditionalHostConfig E rt c hostConfig s =
           (Inr (hostConfig\<lparr>hc_Links := sc_ExternalLinks (Config (c_service c) s1)\<rparr>), s1)"
    if "DependentServices E (c_service c) (Config (c_service c) s) = [link]"
       "rel_Type link = RelTypeIpcNamespace \<or> rel_Type link = RelTypeNetNamespace"
       "Has (ctx_Project (s_context (c_service c))) (rel_Target link)"
       "CreateService E (rel_Target link) = Inr target"
       "Containers E rt target s = (Inr cs, s1)" for link target cs s1
    using that by (auto simp: populateAdditionalHostConfig_def addIpc_def addNetNs_def)
  from a b show ?thesis by (simp add: addIpc_def addNetNs_def)
qed

theorem namespace_relationships_ignored_witness:
  "fst (populateAdditionalHostConfig E_ipc R0 c0 (hc0\<lparr>hc_IpcMode := ''host''\<rparr>) (state_of [] images0))
     = Inr (hc0\<lparr>hc_IpcMode := ''host''\<rparr>)"
proof -
  let ?s = "state_of [] images0"
  let ?link = "\<lparr>rel_Target = ''db'', rel_Alias = [], rel_Type = RelTypeIpcNamespace\<rparr>"
  define s1 where "s1 = snd (Containers E_ipc R0 svc1 ?s)"
  have d: "DependentServices E_ipc (c_service c0) (Config (c_service c0) ?s) = [?link]"
    by (simp add: E_ipc_def)
  have t: "rel_Type ?link = RelTypeIpcNamespace \<or> rel_Type ?link = RelTypeNetNamespace"
    by simp
  have h: "Has (ctx_Project (s_context (c_service c0))) (rel_Target ?link)"
    by (simp add: Has_def c0_def NewContainer_def svc0_def project0_def)
  have cs: "CreateService E_ipc (rel_Target ?link) = Inr svc1"
    by (simp add: E_ipc_def E0_def)
  have "fst (Containers E_ipc R0 svc1 ?s) = Inr []"
    by (simp add: Containers_def collectContainers_def mem_matches_def svc1_def mem_defs)
  then have k: "Containers E_ipc R0 svc1 ?s = (Inr [], s1)"
    by (simp add: s1_def prod_eq_iff)
  have e: "sc_ExternalLinks (Config (c_service c0) s1) = []"
    by (simp add: s1_def Containers_def collectContainers_def mem_matches_def svc1_def Config_def mem_defs)
  from namespace_relationships_ignored[of "hc0\<lparr>hc_IpcMode := ''host''\<rparr>" svc1 "[]" E_ipc R0 c0 ?s] d t h cs k
  have "populateAdditionalHostConfig E_ipc R0 c0 (hc0\<lparr>hc_IpcMode := ''host''\<rparr>) ?s =
           (Inr (hc0\<lparr>hc_IpcMode := ''host'', hc_Links := sc_ExternalLinks (Config (c_service c0) s1)\<rparr>), s1)"
    by blast
  then show ?thesis by (simp add: e hc0_def)
qed

text \<open>
  The claim C9 as the spec states it (a not-yet-supported condition is surfaced) fails:
  for a service that declares a shared IPC namespace with \<open>db\<close>, the derivation returns the
  host configuration unchanged and no error.
\<close>

theorem namespace_relationships_ignored_counterexample:
  "DependentServices E_ipc (c_service c0) (Config (c_service c0) (state_of [] images0)) =
      [\<lparr>rel_Target = ''db'', rel_Alias = [], rel_Type = RelTypeIpcNamespace\<rparr>]
   \<and> fst (populateAdditionalHostConfig E_ipc R0 c0 hc0 (state_of [] images0)) = Inr hc0"
  by (simp add: E_ipc_def populateAdditionalHostConfig_def Has_def Containers_def collectContainers_def
      addIpc_def mem_matches_def svc1_def mem_defs)

lemma Recreate_success:
  assumes "Recreate E rt c imageName s = (Inr (Some new), s')"
  shows "\<exists>old s1 s2 s3.
           findExisting rt c s = (Inr (Some old), s1) \<and> cj_ID old \<noteq> [] \<and>
           call (ContainerRename rt (cj_ID old) (tl (cj_Name old) @ ''-'' @ take 12 (cj_ID old))) s1 = (None, s2) \<and>
           createContainer E rt c imageName (cj_ID old) None s2 = (Inr (Some new), s3) \<and>
           call (ContainerRemove rt (cj_ID old) True False) s3 = (None, s')"
  using assms
  by (auto simp: Recreate_def Let_def split: prod.splits sum.splits option.splits if_splits)

subsection \<open>The binds of a recreated container\<close>

text \<open>
  C8. With a \<^verbatim>\<open>utils.Merge\<close> whose result holds every element of its second argument:
  when \<^verbatim>\<open>Recreate\<close> succeeds, it has inspected the old container and then created the
  replacement, and for every mount of the inspected container whose destination is among
  the volumes of the configuration sent with the create call, the bind
  \<open>source:destination\<close> is among the binds of the host configuration sent with it.
\<close>

theorem Recreate_keeps_binds:
  assumes merge: "\<forall>a b. set b \<subseteq> set (Merge E a b)"
      and run: "Recreate E (recording rt) c imageName s = (Inr (Some new), s')"
  shows "\<exists>pre (old :: ContainerJSON) info cfg hc nw newID post.
           exchanges s' = exchanges s @ pre @
             [XContainerInspect (cj_ID old) (Inr info),
              XContainerCreate cfg hc nw (c_name c) (Inr newID)] @ post
           \<and> (\<forall>m \<in> set (cj_Mounts info). mp_Destination m \<in> cc_Volumes cfg \<longrightarrow>
                 mp_Source m @ '':'' @ mp_Destination m \<in> set (hc_Binds hc))"
proof -
  from Recreate_success[OF run] obtain old s1 s2 s3 where
    f: "findExisting (recording rt) c s = (Inr (Some old), s1)" and ne: "cj_ID old \<noteq> []"
    and r: "call (ContainerRename (recording rt) (cj_ID old) (tl (cj_Name old) @ ''-'' @ take 12 (cj_ID old))) s1 = (None, s2)"
    and k: "createContainer E (recording rt) c imageName (cj_ID old) None s2 = (Inr (Some new), s3)"
    and m: "call (ContainerRemove (recording rt) (cj_ID old) True False) s3 = (None, s')"
    by blast
  let ?a = "[XGetContainer (c_name c) (Inr (Some old)),
            XContainerRename (cj_ID old) (tl (cj_Name old) @ ''-'' @ take 12 (cj_ID old)) None]"
  have st2: "steps s s2 ?a"
    using findExisting_steps[OF f] call_logged[OF r[unfolded rec_simps]] by (simp add: steps_def)
  from createContainer_cases[OF k] ne obtain qs cfg hc nw newID info b where
    st3: "steps s2 s3 (qs @ [XContainerInspect (cj_ID old) (Inr info)] @
            [XContainerCreate cfg hc nw (c_name c) (Inr newID), XGetContainer newID (Inr (Some new))])"
    and binds: "hc_Binds hc = Merge E b (volumeBinds (cc_Volumes cfg) info)"
    by auto
  have st4: "steps s3 s' [XContainerRemove (cj_ID old) True False None]"
    using call_logged[OF m[unfolded rec_simps]] by simp
  have x: "exchanges s' = exchanges s @ (?a @ qs) @
             [XContainerInspect (cj_ID old) (Inr info),
              XContainerCreate cfg hc nw (c_name c) (Inr newID)] @
             [XGetContainer newID (Inr (Some new)), XContainerRemove (cj_ID old) True False None]"
    using st2 st3 st4 by (simp add: steps_def)
  have y: "mp_Source m @ '':'' @ mp_Destination m \<in> set (hc_Binds hc)"
    if "m \<in> set (cj_Mounts info)" "mp_Destination m \<in> cc_Volumes cfg" for m
  proof -
    have "mp_Source m @ '':'' @ mp_Destination m \<in> set (volumeBinds (cc_Volumes cfg) info)"
      using that by (auto simp: volumeBinds_def)
    then show ?thesis using merge binds by auto
  qed
  show ?thesis
  proof (intro exI conjI)
    show "exchanges s' = exchanges s @ (?a @ qs) @
             [XContainerInspect (cj_ID old) (Inr info),
              XContainerCreate cfg hc nw (c_name c) (Inr newID)] @
             [XGetContainer newID (Inr (Some new)), XContainerRemove (cj_ID old) True False None]"
      by (rule x)
    show "\<forall>m \<in> set (cj_Mounts info). mp_Destination m \<in> cc_Volumes cfg \<longrightarrow>
                 mp_Source m @ '':'' @ mp_Destination m \<in> set (hc_Binds hc)"
      using y by blast
  qed
qed

lemma recreate_run:
  "\<exists>k. fst (Recreate E0 R0 c0 ''x'' (state_of [old0] images0)) = Inr (Some k)"
  by (simp add: Recreate_def findExisting_def lookup_str_def cc_defs mem_defs)

lemma recreate_run_binds:
  "concat (map created_binds (exchanges (snd (Recreate E0 R0 c0 ''x'' (state_of [old0] images0)))))
     = [''/host/data:/data'']"
  by (simp add: Recreate_def findExisting_def lookup_str_def cc_defs mem_defs)

theorem Recreate_keeps_binds_witness:
  "(\<exists>pre (old :: ContainerJSON) info cfg hc nw newID post.
       exchanges (snd (Recreate E0 R0 c0 ''x'' (state_of [old0] images0))) =
         exchanges (state_of [old0] images0) @ pre @
           [XContainerInspect (cj_ID old) (Inr info),
            XContainerCreate cfg hc nw (c_name c0) (Inr newID)] @ post
       \<and> (\<forall>m \<in> set (cj_Mounts info). mp_Destination m \<in> cc_Volumes cfg \<longrightarrow>
             mp_Source m @ '':'' @ mp_Destination m \<in> set (hc_Binds hc)))
   \<and> concat (map created_binds (exchanges (snd (Recreate E0 R0 c0 ''x'' (state_of [old0] images0)))))
       = [''/host/data:/data'']"
proof -
  have m: "\<forall>a b. set b \<subseteq> set (Merge E0 a b)"
    by (simp add: E0_def)
  from recreate_run obtain k where
    "Recreate E0 (recording (mem_runtime str0)) c0 ''x'' (state_of [old0] images0) =
       (Inr (Some k), snd (Recreate E0 R0 c0 ''x'' (state_of [old0] images0)))"
    by (auto simp: prod_eq_iff R0_def)
  from Recreate_keeps_binds[OF m this] recreate_run_binds show ?thesis
    by simp
qed

lemma collect_loop_fails:
  "\<exists>x \<in> set containers. isl (Atoi (lookup_str (cs_Labels x) (Str E NUMBER))) \<Longrightarrow>
   isl (collect_loop E service containers result)"
  by (induction containers arbitrary: result)
     (auto split: sum.splits list.splits)

lemma collect_loop_numbers:
  "collect_loop E service containers acc = Inr result \<Longrightarrow>
   \<exists>new. result = acc @ new \<and>
     list_all2 (\<lambda>x k. Atoi (lookup_str (cs_Labels x) (Str E NUMBER)) = Inr (c_containerNumber k) \<and>
                       c_service k = service) containers new"
proof (induction containers arbitrary: acc)
  case Nil
  then show ?case by simp
next
  case (Cons x xs)
  from Cons.prems obtain n n1 where
    a: "Atoi (lookup_str (cs_Labels x) (Str E NUMBER)) = Inr n"
    and r: "collect_loop E service xs (acc @ [NewContainer n1 n service]) = Inr result"
    by (auto split: sum.splits list.splits)
  from Cons.IH[OF r] obtain new where
    "result = (acc @ [NewContainer n1 n service]) @ new"
    "list_all2 (\<lambda>x k. Atoi (lookup_str (cs_Labels x) (Str E NUMBER)) = Inr (c_containerNumber k) \<and>
                       c_service k = service) xs new"
    by blast
  with a show ?case
    by (intro exI[of _ "NewContainer n1 n service # new"]) (simp add: NewContainer_def)
qed

subsection \<open>Enumerating containers\<close>

text \<open>
  C7. When the label query answered a list of containers and one of them has no instance
  label, or one that \<^verbatim>\<open>strconv.Atoi\<close> rejects, \<^verbatim>\<open>collectContainers\<close> returns an error:
  it does not skip the container. And when it returns containers, it returns one for
  every container of the answer, in order, each carrying the number read from the label
  and bound to the service.
\<close>

theorem collectContainers_fails_fast:
  assumes q: "call (GetContainersByFilter rt
                 [(SERVICE, s_name service), (PROJECT, p_Name (ctx_Project (s_context service)))]) s
              = (Inr containers, s1)"
  shows "((\<exists>x \<in> set containers. cs_Labels x (Str E NUMBER) = None
                                 \<or> isl (Atoi (lookup_str (cs_Labels x) (Str E NUMBER)))) \<longrightarrow>
            (\<exists>e. collectContainers E rt service s = (Inl e, s1)))
       \<and> (\<forall>result. collectContainers E rt service s = (Inr result, s1) \<longrightarrow>
            list_all2 (\<lambda>x k. Atoi (lookup_str (cs_Labels x) (Str E NUMBER)) = Inr (c_containerNumber k) \<and>
                              c_service k = service) containers result)"
proof -
  have c: "collectContainers E rt service s = (collect_loop E service containers [], s1)"
    using q by (simp add: collectContainers_def)
  have n: "isl (Atoi (lookup_str (cs_Labels x) (Str E NUMBER)))" if "cs_Labels x (Str E NUMBER) = None" for x :: ContainerSummary
    using that by (simp add: lookup_str_def Atoi_def)
  have "\<exists>e. collectContainers E rt service s = (Inl e, s1)"
    if "\<exists>x \<in> set containers. cs_Labels x (Str E NUMBER) = None
                                 \<or> isl (Atoi (lookup_str (cs_Labels x) (Str E NUMBER)))"
  proof -
    from that n have "\<exists>x \<in> set containers. isl (Atoi (lookup_str (cs_Labels x) (Str E NUMBER)))"
      by blast
    from collect_loop_fails[OF this, of service "[]"] show ?thesis
      unfolding c by (cases "collect_loop E service containers []") auto
  qed
  moreover have "list_all2 (\<lambda>x k. Atoi (lookup_str (cs_Labels x) (Str E NUMBER)) = Inr (c_containerNumber k) \<and>
                              c_service k = service) containers result"
    if "collectContainers E rt service s = (Inr result, s1)" for result
    using that collect_loop_numbers[of E service containers "[]" result] unfolding c by auto
  ultimately show ?thesis by blast
qed

theorem collectContainers_fails_fast_witness:
  "fst (collectContainers E0 R0 svc0 (state_of [old0, old_badnum] images0)) = Inl (NumError ''two'')
   \<and> map c_containerNumber (projr (fst (collectContainers E0 R0 svc0 (state_of [old0] images0)))) = [1]"
proof -
  let ?f = "[(SERVICE, s_name svc0), (PROJECT, p_Name (ctx_Project (s_context svc0)))]"
  define sum0 where "sum0 = \<lparr>cs_Names = [cj_Name old0], cs_Labels = cc_Labels (cj_Config old0)\<rparr>"
  define sum1 where "sum1 = \<lparr>cs_Names = [cj_Name old_badnum], cs_Labels = cc_Labels (cj_Config old_badnum)\<rparr>"
  define s1 where "s1 = snd (call (GetContainersByFilter R0 ?f) (state_of [old0, old_badnum] images0))"
  define s2 where "s2 = snd (call (GetContainersByFilter R0 ?f) (state_of [old0] images0))"
  have "fst (call (GetContainersByFilter R0 ?f) (state_of [old0, old_badnum] images0)) = Inr [sum0, sum1]"
    by (simp add: sum0_def sum1_def mem_matches_def old_badnum_def mem_defs)
  then have q1: "call (GetContainersByFilter R0 ?f) (state_of [old0, old_badnum] images0) = (Inr [sum0, sum1], s1)"
    by (simp add: s1_def prod_eq_iff)
  have "fst (call (GetContainersByFilter R0 ?f) (state_of [old0] images0)) = Inr [sum0]"
    by (simp add: sum0_def mem_matches_def mem_defs)
  then have q2: "call (GetContainersByFilter R0 ?f) (state_of [old0] images0) = (Inr [sum0], s2)"
    by (simp add: s2_def prod_eq_iff)
  have bad: "\<exists>x \<in> set [sum0, sum1]. cs_Labels x (Str E0 NUMBER) = None
                 \<or> isl (Atoi (lookup_str (cs_Labels x) (Str E0 NUMBER)))"
    by (simp add: sum1_def old_badnum_def E0_def lookup_str_def Atoi_def is_digit_def)
  from collectContainers_fails_fast[OF q1, of E0] bad
  obtain e where e: "collectContainers E0 R0 svc0 (state_of [old0, old_badnum] images0) = (Inl e, s1)"
    by blast
  have v: "fst (collectContainers E0 R0 svc0 (state_of [old0, old_badnum] images0)) = Inl (NumError ''two'')"
    unfolding collectContainers_def q1
    by (simp add: sum0_def sum1_def old_badnum_def old0_def E0_def lookup_str_def Atoi_def is_digit_def)
  have g: "\<exists>k. collectContainers E0 R0 svc0 (state_of [old0] images0) = (Inr [k], s2)"
    unfolding collectContainers_def q2
    by (simp add: sum0_def old0_def E0_def lookup_str_def Atoi_def is_digit_def)
  then obtain k where k: "collectContainers E0 R0 svc0 (state_of [old0] images0) = (Inr [k], s2)"
    by blast
  from collectContainers_fails_fast[OF q2, of E0] k
  have "Atoi (lookup_str (cs_Labels sum0) (Str E0 NUMBER)) = Inr (c_containerNumber k)"
    by auto
  then have "c_containerNumber k = 1"
    by (simp add: sum0_def old0_def E0_def lookup_str_def Atoi_def is_digit_def)
  with k e v show ?thesis by simp
qed

section \<open>Properties of the resolution of \<open>extends\<close>\<close>

lemma extend_base_fresh:
  assumes nomerge: "\<forall>k \<in> set (noMerge C). cells h rb k = None"
  shows "extend_base C file inFile service (Some rb) child h =
           (Inr (next_ref h),
            h\<lparr>cells := (cells h)(next_ref h := cells h rb ++ (if child = next_ref h then cells h rb else cells h child)),
              next_ref := Suc (next_ref h)\<rparr>)"
proof -
  have "find (\<lambda>k. cells h rb k \<noteq> None) (noMerge C) = None"
    using nomerge by (simp add: find_None_iff)
  then show ?thesis
    by (simp add: extend_base_def clone_def alloc_def mergeConfig_def)
qed

text \<open>
  C5. A service that declares \<open>extends\<close>, whether it names a service of the same file
  (no file given) or a service of another file (found through the lookup, parsed,
  interpolated and validated), with a base that resolves (to \<open>rb\<close>, in the heap \<open>h1\<close>) and
  has no field that forbids extension: the resolution returns a map \<open>r\<close> in which every
  field the extending service has carries that service's value as it is (a list too:
  nothing is appended), and every other field carries the base's value. The map \<open>r\<close> is
  not the base's map; the base's map is as it was after the resolution and stays so
  whatever is written into \<open>r\<close> afterwards.
\<close>

theorem extends_merge_clones_base:
  assumes env: "readEnvFile C (Some lookup) inFile serviceData h = (Inr child, h0)"
      and ext: "cells h0 child ''extends'' = Some (VMap mv)"
      and fl: "asString C (map_of mv (VString ''file'')) = file"
      and svc: "asString C (map_of mv (VString ''service'')) = service" "service \<noteq> []"
      and base:
        "file = [] \<and> datas service = Some b \<and>
           parseV1 n C (Some lookup) el inFile b datas h0 = Some (Inr rb, h1)
         \<or> file \<noteq> [] \<and>
           (\<exists>bytes resolved baseRawServices h2 baseRawServices1 h3.
              lookup file inFile = Inr (bytes, resolved) \<and>
              Unmarshal C bytes h0 = (Inr baseRawServices, h2) \<and>
              Interpolate C el baseRawServices h2 = (Inr baseRawServices1, h3) \<and>
              validate C baseRawServices1 h3 = None \<and>
              baseRawServices1 service = Some b \<and>
              parseV1 n C (Some lookup) el resolved b baseRawServices1 h3 = Some (Inr rb, h1))"
      and nomerge: "\<forall>k \<in> set (noMerge C). cells h1 rb k = None"
      and wf: "rb < next_ref h1" "child < next_ref h1"
  shows "\<exists>r h'. parseV1 (Suc n) C (Some lookup) el inFile serviceData datas h = Some (Inr r, h')
           \<and> (\<forall>k v. cells h1 child k = Some v \<longrightarrow> cells h' r k = Some v)
           \<and> (\<forall>k. cells h1 child k = None \<longrightarrow> cells h' r k = cells h1 rb k)
           \<and> r \<noteq> rb \<and> cells h' rb = cells h1 rb
           \<and> (\<forall>m. cells (h'\<lparr>cells := (cells h')(r := m)\<rparr>) rb = cells h1 rb)"
proof -
  let ?r = "next_ref h1"
  let ?h = "h1\<lparr>cells := (cells h1)(?r := cells h1 rb ++ cells h1 child), next_ref := Suc ?r\<rparr>"
  have e: "extend_base C file inFile service (Some rb) child h1 = (Inr ?r, ?h)"
    using extend_base_fresh[OF nomerge, of "file" inFile service child] wf by simp
  have p: "parseV1 (Suc n) C (Some lookup) el inFile serviceData datas h = Some (Inr ?r, ?h)"
    using base
  proof (elim disjE conjE exE)
    assume "file = []" "datas service = Some b"
      "parseV1 n C (Some lookup) el inFile b datas h0 = Some (Inr rb, h1)"
    with env ext fl svc e show ?thesis by (simp add: Let_def)
  next
    fix bytes resolved baseRawServices h2 baseRawServices1 h3
    assume "file \<noteq> []" "lookup file inFile = Inr (bytes, resolved)"
      "Unmarshal C bytes h0 = (Inr baseRawServices, h2)"
      "Interpolate C el baseRawServices h2 = (Inr baseRawServices1, h3)"
      "validate C baseRawServices1 h3 = None"
      "baseRawServices1 service = Some b"
      "parseV1 n C (Some lookup) el resolved b baseRawServices1 h3 = Some (Inr rb, h1)"
    with env ext fl svc e show ?thesis by (simp add: Let_def)
  qed
  show ?thesis
  proof (intro exI conjI)
    show "parseV1 (Suc n) C (Some lookup) el inFile serviceData datas h = Some (Inr ?r, ?h)" by (rule p)
    show "\<forall>k v. cells h1 child k = Some v \<longrightarrow> cells ?h ?r k = Some v" by (simp add: map_add_def)
    show "\<forall>k. cells h1 child k = None \<longrightarrow> cells ?h ?r k = cells h1 rb k" by (simp add: map_add_def)
    show "?r \<noteq> rb" using wf by simp
    show "cells ?h rb = cells h1 rb" using wf by simp
    show "\<forall>m. cells (?h\<lparr>cells := (cells ?h)(?r := m)\<rparr>) rb = cells h1 rb" using wf by simp
  qed
qed

theorem extends_merge_clones_base_witness:
  "(\<exists>r h'. parseV1 (Suc (Suc 0)) C0 (Some lookup0) () ''compose.yml'' 1 datas0 heap0 = Some (Inr r, h')
     \<and> cells h' r ''image'' = Some (VString ''x'')
     \<and> cells h' r ''command'' = Some (VString ''b'')
     \<and> cells h' r ''ports'' = Some (VList [VString ''8080''])
     \<and> r \<noteq> 0
     \<and> cells h' 0 = serviceA
     \<and> cells (h'\<lparr>cells := (cells h')(r := Map.empty)\<rparr>) 0 = serviceA)
   \<and> (\<exists>r h'. parseV1 (Suc (Suc 0)) C_files (Some lookup_files) () ''compose.yml'' 0 datas_files heap_files
               = Some (Inr r, h')
     \<and> cells h' r ''image'' = Some (VString ''x'')
     \<and> cells h' r ''command'' = Some (VString ''c'')
     \<and> cells h' r ''ports'' = Some (VList [VString ''9090''])
     \<and> r \<noteq> 1
     \<and> cells h' 1 = serviceA
     \<and> cells (h'\<lparr>cells := (cells h')(r := Map.empty)\<rparr>) 1 = serviceA)"
proof
  let ?mv = "[(VString ''service'', VString ''A'')]"
  have env: "readEnvFile C0 (Some lookup0) ''compose.yml'' 1 heap0 = (Inr 1, heap0)"
    by (simp add: C0_def)
  have ext: "cells heap0 1 ''extends'' = Some (VMap ?mv)"
    by (simp add: heap0_def serviceB_def)
  have fl: "asString C0 (map_of ?mv (VString ''file'')) = []"
    and svc: "asString C0 (map_of ?mv (VString ''service'')) = ''A''" "''A'' \<noteq> []"
    by (simp_all add: C0_def)
  have "parseV1 (Suc 0) C0 (Some lookup0) () ''compose.yml'' 0 datas0 heap0 = Some (Inr 0, heap0)"
    by (simp add: C0_def heap0_def serviceA_def)
  then have base: "[] = ([] :: string) \<and> datas0 ''A'' = Some 0 \<and>
           parseV1 (Suc 0) C0 (Some lookup0) () ''compose.yml'' 0 datas0 heap0 = Some (Inr 0, heap0)
         \<or> [] \<noteq> ([] :: string) \<and>
           (\<exists>bytes resolved baseRawServices h2 baseRawServices1 h3.
              lookup0 [] ''compose.yml'' = Inr (bytes, resolved) \<and>
              Unmarshal C0 bytes heap0 = (Inr baseRawServices, h2) \<and>
              Interpolate C0 () baseRawServices h2 = (Inr baseRawServices1, h3) \<and>
              validate C0 baseRawServices1 h3 = None \<and>
              baseRawServices1 ''A'' = Some 0 \<and>
              parseV1 (Suc 0) C0 (Some lookup0) () resolved 0 baseRawServices1 h3 = Some (Inr 0, heap0))"
    by (simp add: datas0_def)
  have nomerge: "\<forall>k \<in> set (noMerge C0). cells heap0 0 k = None"
    by (simp add: C0_def heap0_def serviceA_def)
  have wf: "0 < next_ref heap0" "1 < next_ref heap0" by (simp_all add: heap0_def)
  from extends_merge_clones_base[OF env ext fl svc base nomerge wf]
  obtain r h' where
    p: "parseV1 (Suc (Suc 0)) C0 (Some lookup0) () ''compose.yml'' 1 datas0 heap0 = Some (Inr r, h')"
    and own: "\<And>k v. cells heap0 1 k = Some v \<Longrightarrow> cells h' r k = Some v"
    and dflt: "\<And>k. cells heap0 1 k = None \<Longrightarrow> cells h' r k = cells heap0 0 k"
    and rest: "r \<noteq> 0" "cells h' 0 = cells heap0 0"
              "\<And>m. cells (h'\<lparr>cells := (cells h')(r := m)\<rparr>) 0 = cells heap0 0"
    by blast
  have "cells h' r ''image'' = Some (VString ''x'')"
    using dflt[of "''image''"] by (simp add: heap0_def serviceA_def serviceB_def)
  moreover have "cells h' r ''command'' = Some (VString ''b'')"
    using own[of "''command''" "VString ''b''"] by (simp add: heap0_def serviceB_def)
  moreover have "cells h' r ''ports'' = Some (VList [VString ''8080''])"
    using own[of "''ports''" "VList [VString ''8080'']"] by (simp add: heap0_def serviceB_def)
  moreover have "cells heap0 0 = serviceA" by (simp add: heap0_def)
  ultimately show "\<exists>r h'. parseV1 (Suc (Suc 0)) C0 (Some lookup0) () ''compose.yml'' 1 datas0 heap0 = Some (Inr r, h')
     \<and> cells h' r ''image'' = Some (VString ''x'')
     \<and> cells h' r ''command'' = Some (VString ''b'')
     \<and> cells h' r ''ports'' = Some (VList [VString ''8080''])
     \<and> r \<noteq> 0
     \<and> cells h' 0 = serviceA
     \<and> cells (h'\<lparr>cells := (cells h')(r := Map.empty)\<rparr>) 0 = serviceA"
    using p rest by auto
next
  let ?mv = "[(VString ''file'', VString ''base.yml''), (VString ''service'', VString ''A'')]"
  let ?h1 = "heap_files\<lparr>cells := (cells heap_files)(1 := serviceA), next_ref := 2\<rparr>"
  have env: "readEnvFile C_files (Some lookup_files) ''compose.yml'' 0 heap_files = (Inr 0, heap_files)"
    by (simp add: C_files_def C0_def)
  have ext: "cells heap_files 0 ''extends'' = Some (VMap ?mv)"
    by (simp add: heap_files_def serviceC_def)
  have fl: "asString C_files (map_of ?mv (VString ''file'')) = ''base.yml''"
    and svc: "asString C_files (map_of ?mv (VString ''service'')) = ''A''" "''A'' \<noteq> []"
    by (simp_all add: C_files_def C0_def)
  have l: "lookup_files ''base.yml'' ''compose.yml'' = Inr (''bytes of base.yml'', ''base.yml'')"
    by (simp add: lookup_files_def)
  have u: "Unmarshal C_files ''bytes of base.yml'' heap_files = (Inr [''A'' \<mapsto> 1], ?h1)"
    by (simp add: C_files_def C0_def alloc_def heap_files_def)
  have i: "Interpolate C_files () [''A'' \<mapsto> 1] ?h1 = (Inr [''A'' \<mapsto> 1], ?h1)"
    and v: "validate C_files [''A'' \<mapsto> 1] ?h1 = None"
    by (simp_all add: C_files_def C0_def)
  have b: "parseV1 (Suc 0) C_files (Some lookup_files) () ''base.yml'' 1 [''A'' \<mapsto> 1] ?h1 = Some (Inr 1, ?h1)"
    by (simp add: C_files_def C0_def heap_files_def serviceA_def)
  have base: "''base.yml'' = [] \<and> datas_files ''A'' = Some 1 \<and>
           parseV1 (Suc 0) C_files (Some lookup_files) () ''compose.yml'' 1 datas_files heap_files = Some (Inr 1, ?h1)
         \<or> ''base.yml'' \<noteq> [] \<and>
           (\<exists>bytes resolved baseRawServices h2 baseRawServices1 h3.
              lookup_files ''base.yml'' ''compose.yml'' = Inr (bytes, resolved) \<and>
              Unmarshal C_files bytes heap_files = (Inr baseRawServices, h2) \<and>
              Interpolate C_files () baseRawServices h2 = (Inr baseRawServices1, h3) \<and>
              validate C_files baseRawServices1 h3 = None \<and>
              baseRawServices1 ''A'' = Some 1 \<and>
              parseV1 (Suc 0) C_files (Some lookup_files) () resolved 1 baseRawServices1 h3 = Some (Inr 1, ?h1))"
    using l u i v b by (intro disjI2 conjI exI) simp_all
  have nomerge: "\<forall>k \<in> set (noMerge C_files). cells ?h1 1 k = None"
    by (simp add: C_files_def C0_def serviceA_def)
  have wf: "1 < next_ref ?h1" "0 < next_ref ?h1" by simp_all
  from extends_merge_clones_base[OF env ext fl svc base nomerge wf]
  obtain r h' where
    p: "parseV1 (Suc (Suc 0)) C_files (Some lookup_files) () ''compose.yml'' 0 datas_files heap_files
          = Some (Inr r, h')"
    and own: "\<And>k v. cells ?h1 0 k = Some v \<Longrightarrow> cells h' r k = Some v"
    and dflt: "\<And>k. cells ?h1 0 k = None \<Longrightarrow> cells h' r k = cells ?h1 1 k"
    and rest: "r \<noteq> 1" "cells h' 1 = cells ?h1 1"
              "\<And>m. cells (h'\<lparr>cells := (cells h')(r := m)\<rparr>) 1 = cells ?h1 1"
    by blast
  have "cells h' r ''image'' = Some (VString ''x'')"
    using dflt[of "''image''"] by (simp add: heap_files_def serviceA_def serviceC_def)
  moreover have "cells h' r ''command'' = Some (VString ''c'')"
    using own[of "''command''" "VString ''c''"] by (simp add: heap_files_def serviceC_def)
  moreover have "cells h' r ''ports'' = Some (VList [VString ''9090''])"
    using own[of "''ports''" "VList [VString ''9090'']"] by (simp add: heap_files_def serviceC_def)
  moreover have "cells ?h1 1 = serviceA" by simp
  ultimately show "\<exists>r h'. parseV1 (Suc (Suc 0)) C_files (Some lookup_files) () ''compose.yml'' 0 datas_files heap_files
               = Some (Inr r, h')
     \<and> cells h' r ''image'' = Some (VString ''x'')
     \<and> cells h' r ''command'' = Some (VString ''c'')
     \<and> cells h' r ''ports'' = Some (VList [VString ''9090''])
     \<and> r \<noteq> 1
     \<and> cells h' 1 = serviceA
     \<and> cells (h'\<lparr>cells := (cells h')(r := Map.empty)\<rparr>) 1 = serviceA"
    using p rest by auto
qed

text \<open>
  C6, as amended. When a service declares \<open>extends\<close> as a mapping and the resource
  lookup is nil, \<^verbatim>\<open>parseV1\<close> fails with "Can not use extends in file ... no mechanism
  provided to files", whatever the mapping names: the lookup is tested before the
  reference is read, so a same-file reference fails too. With a lookup, a same-file
  reference to a service that the file does not have fails with "Failed to find service
  ... to extend".
\<close>

theorem extends_needs_lookup:
  "(\<forall>n h1 sd1 mv. readEnvFile C None inFile serviceData h = (Inr sd1, h1) \<and>
        cells h1 sd1 ''extends'' = Some (VMap mv) \<longrightarrow>
      parseV1 (Suc n) C None el inFile serviceData datas h =
        Some (Inl (Errorf (''Can not use extends in file '' @ inFile @
                           '' no mechanism provided to files'')), h1))
   \<and> (\<forall>n lookup h1 sd1 mv service.
        readEnvFile C (Some lookup) inFile serviceData h = (Inr sd1, h1) \<and>
        cells h1 sd1 ''extends'' = Some (VMap mv) \<and>
        asString C (map_of mv (VString ''file'')) = [] \<and>
        asString C (map_of mv (VString ''service'')) = service \<and> service \<noteq> [] \<and>
        datas service = None \<longrightarrow>
      parseV1 (Suc n) C (Some lookup) el inFile serviceData datas h =
        Some (Inl (Errorf (''Failed to find service '' @ service @ '' to extend'')), h1))"
proof (intro conjI allI impI)
  fix n h1 sd1 mv
  assume "readEnvFile C None inFile serviceData h = (Inr sd1, h1) \<and>
        cells h1 sd1 ''extends'' = Some (VMap mv)"
  then show "parseV1 (Suc n) C None el inFile serviceData datas h =
        Some (Inl (Errorf (''Can not use extends in file '' @ inFile @
                           '' no mechanism provided to files'')), h1)"
    by simp
next
  fix n lookup h1 sd1 mv service
  assume a: "readEnvFile C (Some lookup) inFile serviceData h = (Inr sd1, h1) \<and>
        cells h1 sd1 ''extends'' = Some (VMap mv) \<and>
        asString C (map_of mv (VString ''file'')) = [] \<and>
        asString C (map_of mv (VString ''service'')) = service \<and> service \<noteq> [] \<and>
        datas service = None"
  then have "service \<noteq> []" "datas service = None" by simp_all
  with a show "parseV1 (Suc n) C (Some lookup) el inFile serviceData datas h =
        Some (Inl (Errorf (''Failed to find service '' @ service @ '' to extend'')), h1)"
    by (simp add: Let_def)
qed

theorem extends_needs_lookup_witness:
  "parseV1 (Suc 0) C0 None () ''compose.yml'' 1 datas0 heap0 =
     Some (Inl (Errorf ''Can not use extends in file compose.yml no mechanism provided to files''), heap0)
   \<and> parseV1 (Suc 0) C0 (Some lookup0) () ''compose.yml'' 1 (datas0(''A'' := None)) heap0 =
     Some (Inl (Errorf ''Failed to find service A to extend''), heap0)"
proof -
  let ?mv = "[(VString ''service'', VString ''A'')]"
  have env: "readEnvFile C0 rl ''compose.yml'' 1 heap0 = (Inr 1, heap0)" for rl
    by (simp add: C0_def)
  have ext: "cells heap0 1 ''extends'' = Some (VMap ?mv)"
    by (simp add: heap0_def serviceB_def)
  have fl: "asString C0 (map_of ?mv (VString ''file'')) = []"
    and svc: "asString C0 (map_of ?mv (VString ''service'')) = ''A''" "''A'' \<noteq> []"
    by (simp_all add: C0_def)
  have dat: "(datas0(''A'' := None)) ''A'' = None" by simp
  from extends_needs_lookup[of C0 "''compose.yml''" 1 heap0 "()" datas0] env ext
  have a: "parseV1 (Suc 0) C0 None () ''compose.yml'' 1 datas0 heap0 =
     Some (Inl (Errorf (''Can not use extends in file '' @ ''compose.yml'' @ '' no mechanism provided to files'')), heap0)"
    by blast
  from extends_needs_lookup[of C0 "''compose.yml''" 1 heap0 "()" "datas0(''A'' := None)"]
    env ext fl svc dat
  have b: "parseV1 (Suc 0) C0 (Some lookup0) () ''compose.yml'' 1 (datas0(''A'' := None)) heap0 =
     Some (Inl (Errorf (''Failed to find service '' @ ''A'' @ '' to extend'')), heap0)"
    by blast
  from a b show ?thesis by simp
qed

text \<open>
  The claim C6 as the spec states it (a nil lookup is fatal only for a reference into
  another file) fails: \<open>B\<close> extends \<open>A\<close> of the same file, \<open>A\<close> is there, and without a
  lookup the resolution fails; with one it succeeds.
\<close>

theorem extends_needs_lookup_counterexample:
  "datas0 ''A'' = Some 0
   \<and> cells heap0 1 ''extends'' = Some (VMap [(VString ''service'', VString ''A'')])
   \<and> parseV1 (Suc (Suc 0)) C0 None () ''compose.yml'' 1 datas0 heap0 =
       Some (Inl (Errorf ''Can not use extends in file compose.yml no mechanism provided to files''), heap0)
   \<and> map_option fst (parseV1 (Suc (Suc 0)) C0 (Some lookup0) () ''compose.yml'' 1 datas0 heap0) =
       Some (Inr 2)"
  by (simp add: datas0_def heap0_def serviceA_def serviceB_def C0_def Let_def extend_base_def clone_def
      alloc_def mergeConfig_def)

end
